theory Spec2Isabelle
  imports Main
begin

section \<open>Prompt queue submission and reconciliation (shared-v5-ready/chat/use-chat-core.ts)\<close>

text \<open>
  The hook \<open>useChatCore\<close> keeps its state in React state cells and refs. The model is
  a record of those cells, passed explicitly; every call that leaves the hook (network
  requests, toasts, the regeneration request, the collaborators given as props) is
  appended to the \<open>effects\<close> log, in the order the source makes the calls.

  Each asynchronous handler is split at its last \<open>await\<close> into the part that runs
  before the answer and the part that runs after it, which applies its updates to the
  state of that moment, so that other handlers may run in between. State updates are
  taken to apply at once (the source writes the jobs ref inside the state updater).
\<close>

subsection \<open>Data\<close>

datatype job_status = Pending | Processing

datatype queue_status = Q_pending | Q_processing | Q_completed | Q_failed | Q_cancelled

datatype toast_status = Toast_error | Toast_warning

record UserProfile =
  profile_id :: string
  system_prompt :: "string option"

record File =
  file_name :: string
  file_type :: string

record OptimisticAttachment =
  oa_name :: string
  oa_contentType :: string
  oa_url :: string

record Attachment =
  at_name :: string
  at_contentType :: string
  at_url :: string
  at_storagePath :: "string option"

datatype part = TextPart string | FilePart OptimisticAttachment

record AppMessage =
  msg_id :: string
  msg_role :: string
  msg_parts :: "part list"
  msg_createdAt :: nat
  msg_content :: string
  experimental_attachments :: "OptimisticAttachment list option"

text \<open>\<open>PendingQueueMessage\<close>: one entry of the correlation table. \<open>queueId\<close> is the
  optional server identifier.\<close>

record PendingQueueMessage =
  clientId :: string
  queueId :: "string option"
  status :: job_status
  content :: string
  createdAt :: nat
  optimisticAttachments :: "OptimisticAttachment list"

subsection \<open>Requests and responses of the three endpoints\<close>

datatype wire_message = Prior AppMessage | New_user_message string string string

record EnqueueRequest =
  enq_userId :: string
  enq_chatId :: string
  enq_model :: string
  enq_isAuthenticated :: bool
  enq_systemPrompt :: string
  enq_enableSearch :: bool
  enq_messages :: "wire_message list"
  enq_attachments :: "Attachment list"

record queue_ref =
  q_id :: string
  q_status :: string

record EnqueueResponse =
  enq_success :: bool
  enq_queue :: "queue_ref option"
  enq_error :: "string option"

record StatusRequest =
  st_userId :: string
  st_isAuthenticated :: bool
  st_queueIds :: "string list"

record queue_entry =
  qe_id :: string
  qe_status :: queue_status

record QueueStatusResponse =
  qs_success :: bool
  qs_queue :: "queue_entry list"
  qs_error :: "string option"

record CancelRequest =
  cn_queueId :: string
  cn_userId :: "string option"
  cn_isAuthenticated :: bool

record CancelResponse =
  cn_success :: bool
  cn_error :: "string option"

record RegenerateBody =
  rg_chatId :: string
  rg_userId :: string
  rg_model :: string
  rg_isAuthenticated :: bool
  rg_systemPrompt :: string

text \<open>What \<open>fetch\<close> can do: reject (transport error), answer with a status that is
  not ok (the body, when it parses, may carry \<open>error\<close> or \<open>message\<close>), or answer ok
  with a body that parses or does not.\<close>

record error_payload =
  ep_error :: "string option"
  ep_message :: "string option"

datatype 'r fetch_result =
    Fetch_rejects string
  | Not_ok "error_payload option"
  | Ok_json 'r
  | Ok_unparsable string

subsection \<open>Calls that leave the hook\<close>

datatype effect =
    Toast string "string option" toast_status
  | ConsoleError string string
  | PostEnqueue EnqueueRequest
  | PostStatus StatusRequest
  | PostCancel CancelRequest
  | Regenerate RegenerateBody
  | CleanupOptimisticAttachments "string list"
  | CacheAndAddMessage AppMessage
  | SetFiles "File list"
  | ClearDraft
  | BumpChat string

text \<open>The values the interval callback captures when \<open>submit\<close> arms the timer.\<close>

record poll_closure =
  pc_uid :: string
  pc_chatId :: string
  pc_model :: string
  pc_isAuthenticated :: bool
  pc_systemPrompt :: string

record engine =
  messages :: "AppMessage list"
  input :: string
  enableSearch :: bool
  isSubmitting :: bool
  pendingQueueJobs :: "PendingQueueMessage list"
  pollInterval :: "poll_closure option"
  pollFailureCount :: nat
  hasSentFirstMessage :: bool
  prevChatId :: "string option"
  effects :: "effect list"

text \<open>The collaborators passed as props or imported from modules outside the hook,
  as functions of their arguments, and the two imported constants. \<open>regenerate\<close>
  comes from \<open>useChat\<close> (module \<open>@ai-sdk/react\<close>), which also owns the transcript:
  the field says what a call of it does to the transcript at once.\<close>

record collaborators =
  getOrCreateGuestUserId :: "UserProfile option \<Rightarrow> string option"
  createOptimisticAttachments :: "File list \<Rightarrow> OptimisticAttachment list"
  checkLimitsAndNotify :: "string \<Rightarrow> bool"
  ensureChatExists :: "string \<Rightarrow> string \<Rightarrow> string option"
  handleFileUploads :: "string \<Rightarrow> string \<Rightarrow> Attachment list option"
  fetchEnqueue :: "EnqueueRequest \<Rightarrow> EnqueueResponse fetch_result"
  fetchStatus :: "StatusRequest \<Rightarrow> QueueStatusResponse fetch_result"
  fetchCancel :: "CancelRequest \<Rightarrow> CancelResponse fetch_result"
  regenerate :: "RegenerateBody \<Rightarrow> AppMessage list \<Rightarrow> AppMessage list"
  MESSAGE_MAX_LENGTH :: nat
  SYSTEM_PROMPT_DEFAULT :: string

text \<open>The props read by \<open>submit\<close> and the cancellation handler.\<close>

record props =
  user :: "UserProfile option"
  files :: "File list"
  selectedModel :: string

text \<open>The values one call of \<open>submit\<close> holds in its closure across its \<open>await\<close>s.\<close>

record submit_closure =
  sc_uid :: string
  sc_optimisticId :: string
  sc_now :: nat
  sc_input :: string
  sc_files :: "File list"
  sc_messages :: "AppMessage list"
  sc_user :: "UserProfile option"
  sc_selectedModel :: string
  sc_enableSearch :: bool

subsection \<open>Helpers\<close>

definition MAX_QUEUE_POLL_FAILURES :: nat where
  "MAX_QUEUE_POLL_FAILURES = 5"

text \<open>JavaScript \<open>a || d\<close> on an optional string: \<open>undefined\<close> and the empty string
  are falsy.\<close>

fun js_or :: "string option \<Rightarrow> string \<Rightarrow> string" where
  "js_or None d = d"
| "js_or (Some v) d = (if v = [] then d else v)"

fun decimal :: "nat \<Rightarrow> string" where
  "decimal n =
     (if n < 10 then [''0123456789'' ! n]
      else decimal (n div 10) @ [''0123456789'' ! (n mod 10)])"

declare decimal.simps [simp del]

text \<open>\<open>postJson\<close> (lines 79-97): throws on a rejected fetch, on a status that is not
  ok (with the message of the body, or "Request failed") and on an unparsable body;
  \<open>Inl\<close> is the message of the thrown error.\<close>

fun postJson :: "'r fetch_result \<Rightarrow> string + 'r" where
  "postJson (Fetch_rejects m) = Inl m"
| "postJson (Not_ok payload) =
     Inl (case payload of
            None \<Rightarrow> ''Request failed''
          | Some p \<Rightarrow> js_or (ep_error p) (js_or (ep_message p) ''Request failed''))"
| "postJson (Ok_json r) = Inr r"
| "postJson (Ok_unparsable m) = Inl m"

definition isAuthenticated :: "UserProfile option \<Rightarrow> bool" where
  "isAuthenticated u = (case u of None \<Rightarrow> False | Some p \<Rightarrow> profile_id p \<noteq> [])"

definition systemPrompt :: "collaborators \<Rightarrow> UserProfile option \<Rightarrow> string" where
  "systemPrompt env u =
     js_or (case u of None \<Rightarrow> None | Some p \<Rightarrow> system_prompt p) (SYSTEM_PROMPT_DEFAULT env)"

subsection \<open>clearPolling and the effect on the table length (lines 199-211)\<close>

definition clearPolling :: "engine \<Rightarrow> engine" where
  "clearPolling s = s\<lparr>pollInterval := None, pollFailureCount := 0\<rparr>"

definition pendingLengthEffect :: "engine \<Rightarrow> engine" where
  "pendingLengthEffect s = (if pendingQueueJobs s = [] then clearPolling s else s)"

text \<open>React runs the effect after a render in which \<open>pendingQueueJobs.length\<close> differs
  from the previous render.\<close>

definition afterRender :: "engine \<Rightarrow> engine \<Rightarrow> engine" where
  "afterRender prev s =
     (if length (pendingQueueJobs s) \<noteq> length (pendingQueueJobs prev)
      then pendingLengthEffect s else s)"

subsection \<open>The render-time reset of the transcript (lines 190-197)\<close>

definition renderChatId :: "string option \<Rightarrow> engine \<Rightarrow> engine" where
  "renderChatId chatId s =
     (let s1 = (if prevChatId s \<noteq> None \<and> chatId = None \<and> messages s \<noteq> []
                then s\<lparr>messages := []\<rparr> else s)
      in s1\<lparr>prevChatId := chatId\<rparr>)"

subsection \<open>submit (lines 213-460)\<close>

definition optimisticAttachmentsOf ::
  "collaborators \<Rightarrow> submit_closure \<Rightarrow> OptimisticAttachment list" where
  "optimisticAttachmentsOf env c =
     (if sc_files c \<noteq> [] then createOptimisticAttachments env (sc_files c) else [])"

definition optimisticMessage :: "collaborators \<Rightarrow> submit_closure \<Rightarrow> AppMessage" where
  "optimisticMessage env c =
     (let oas = optimisticAttachmentsOf env c in
      \<lparr>msg_id = sc_optimisticId c, msg_role = ''user'',
       msg_parts = TextPart (sc_input c) # map FilePart oas,
       msg_createdAt = sc_now c, msg_content = sc_input c,
       experimental_attachments = (if oas \<noteq> [] then Some oas else None)\<rparr>)"

definition queueMessage :: "collaborators \<Rightarrow> submit_closure \<Rightarrow> PendingQueueMessage" where
  "queueMessage env c =
     \<lparr>clientId = sc_optimisticId c, queueId = None, status = Pending,
      content = sc_input c, createdAt = sc_now c,
      optimisticAttachments = optimisticAttachmentsOf env c\<rparr>"

text \<open>Lines 222-262: the synchronous part after the user id is resolved.\<close>

definition submit_begin :: "collaborators \<Rightarrow> submit_closure \<Rightarrow> engine \<Rightarrow> engine" where
  "submit_begin env c s =
     s\<lparr>messages := messages s @ [optimisticMessage env c],
       hasSentFirstMessage := True,
       input := [],
       pendingQueueJobs := pendingQueueJobs s @ [queueMessage env c],
       effects := effects s @ [SetFiles []]\<rparr>"

text \<open>The block repeated at each failing gate (lines 267-272, 277-282, 290-295,
  302-307).\<close>

definition rejectSubmission :: "collaborators \<Rightarrow> submit_closure \<Rightarrow> engine \<Rightarrow> engine" where
  "rejectSubmission env c s =
     s\<lparr>messages := filter (\<lambda>m. msg_id m \<noteq> sc_optimisticId c) (messages s),
       pendingQueueJobs :=
         filter (\<lambda>item. clientId item \<noteq> sc_optimisticId c) (pendingQueueJobs s),
       effects := effects s @
         [CleanupOptimisticAttachments (map oa_url (optimisticAttachmentsOf env c))]\<rparr>"

text \<open>The catch block (lines 440-457); \<open>msg\<close> is the message of the caught error,
  which only reaches the console.\<close>

definition filePartUrls :: "part list \<Rightarrow> string list" where
  "filePartUrls ps =
     concat (map (\<lambda>p. case p of TextPart _ \<Rightarrow> [] | FilePart a \<Rightarrow> [oa_url a]) ps)"

definition submitFailed ::
  "collaborators \<Rightarrow> submit_closure \<Rightarrow> string \<Rightarrow> engine \<Rightarrow> engine" where
  "submitFailed env c msg s =
     s\<lparr>messages := filter (\<lambda>m. msg_id m \<noteq> sc_optimisticId c) (messages s),
       pendingQueueJobs :=
         filter (\<lambda>item. clientId item \<noteq> sc_optimisticId c) (pendingQueueJobs s),
       effects := effects s @
         [ConsoleError ''Failed to process queued submit'' msg,
          CleanupOptimisticAttachments (filePartUrls (msg_parts (optimisticMessage env c))),
          Toast ''Failed to queue message'' None Toast_error]\<rparr>"

definition enqueueRequest ::
  "collaborators \<Rightarrow> submit_closure \<Rightarrow> string \<Rightarrow> Attachment list \<Rightarrow> EnqueueRequest" where
  "enqueueRequest env c currentChatId attachments =
     \<lparr>enq_userId = sc_uid c, enq_chatId = currentChatId, enq_model = sc_selectedModel c,
      enq_isAuthenticated = isAuthenticated (sc_user c),
      enq_systemPrompt = systemPrompt env (sc_user c),
      enq_enableSearch = sc_enableSearch c,
      enq_messages = map Prior (sc_messages c) @
        [New_user_message (sc_optimisticId c) ''user'' (sc_input c)],
      enq_attachments = attachments\<rparr>"

definition pollClosure :: "collaborators \<Rightarrow> submit_closure \<Rightarrow> string \<Rightarrow> poll_closure" where
  "pollClosure env c currentChatId =
     \<lparr>pc_uid = sc_uid c, pc_chatId = currentChatId, pc_model = sc_selectedModel c,
      pc_isAuthenticated = isAuthenticated (sc_user c),
      pc_systemPrompt = systemPrompt env (sc_user c)\<rparr>"

text \<open>Lines 334-439: the enqueue answered with success and a queue id.\<close>

definition enqueued ::
  "collaborators \<Rightarrow> submit_closure \<Rightarrow> string \<Rightarrow> queue_ref \<Rightarrow> engine \<Rightarrow> engine" where
  "enqueued env c currentChatId q s =
     (let s1 = s\<lparr>pendingQueueJobs :=
                  map (\<lambda>item. if clientId item = sc_optimisticId c
                               then item\<lparr>queueId := Some (q_id q),
                                         status := (if q_status q = ''processing''
                                                    then Processing else Pending)\<rparr>
                               else item)
                      (pendingQueueJobs s)\<rparr>;
          s2 = (case pollInterval s1 of
                  None \<Rightarrow> s1\<lparr>pollInterval := Some (pollClosure env c currentChatId)\<rparr>
                | Some _ \<Rightarrow> s1)
      in s2\<lparr>messages := filter (\<lambda>m. msg_id m \<noteq> sc_optimisticId c) (messages s2),
            input := [],
            effects := effects s2 @
              [CleanupOptimisticAttachments (map oa_url (optimisticAttachmentsOf env c)),
               CacheAndAddMessage (optimisticMessage env c),
               ClearDraft] @
              (if sc_messages c \<noteq> [] then [BumpChat currentChatId] else [])\<rparr>)"

text \<open>Lines 311-332: the request, and the check of its answer.\<close>

definition enqueue ::
  "collaborators \<Rightarrow> submit_closure \<Rightarrow> string \<Rightarrow> Attachment list \<Rightarrow> engine \<Rightarrow> engine" where
  "enqueue env c currentChatId attachments s =
     (let req = enqueueRequest env c currentChatId attachments;
          s1 = s\<lparr>effects := effects s @ [PostEnqueue req]\<rparr>
      in case postJson (fetchEnqueue env req) of
           Inl msg \<Rightarrow> submitFailed env c msg s1
         | Inr resp \<Rightarrow>
             (case enq_queue resp of
                None \<Rightarrow>
                  submitFailed env c (js_or (enq_error resp) ''Failed to enqueue prompt'') s1
              | Some q \<Rightarrow>
                  if \<not> enq_success resp \<or> q_id q = []
                  then submitFailed env c
                         (js_or (enq_error resp) ''Failed to enqueue prompt'') s1
                  else enqueued env c currentChatId q s1))"

definition tooLongTitle :: "collaborators \<Rightarrow> string" where
  "tooLongTitle env =
     ''The message you submitted was too long, please submit something shorter. (Max '' @
     decimal (MESSAGE_MAX_LENGTH env) @ '' characters)''"

text \<open>Lines 264-460: everything after the optimistic insert. The state updates of
  each path all follow its last \<open>await\<close>, so they apply to the state of that moment.\<close>

definition submit_settle :: "collaborators \<Rightarrow> submit_closure \<Rightarrow> engine \<Rightarrow> engine" where
  "submit_settle env c s =
     (let s' =
        (if \<not> checkLimitsAndNotify env (sc_uid c) then rejectSubmission env c s
         else case ensureChatExists env (sc_uid c) (sc_input c) of
                None \<Rightarrow> rejectSubmission env c s
              | Some currentChatId \<Rightarrow>
                  if currentChatId = [] then rejectSubmission env c s
                  else if length (sc_input c) > MESSAGE_MAX_LENGTH env
                  then rejectSubmission env c
                         (s\<lparr>effects := effects s @
                              [Toast (tooLongTitle env) None Toast_error]\<rparr>)
                  else if sc_files c \<noteq> []
                  then (case handleFileUploads env (sc_uid c) currentChatId of
                          None \<Rightarrow> rejectSubmission env c s
                        | Some attachments \<Rightarrow> enqueue env c currentChatId attachments s)
                  else enqueue env c currentChatId [] s)
      in s'\<lparr>isSubmitting := False\<rparr>)"

text \<open>The whole of \<open>submit\<close>, run without interruption; \<open>now\<close> is \<open>Date.now()\<close>.\<close>

definition submit :: "collaborators \<Rightarrow> props \<Rightarrow> nat \<Rightarrow> engine \<Rightarrow> engine" where
  "submit env p now s =
     (let s0 = s\<lparr>isSubmitting := True\<rparr> in
      case getOrCreateGuestUserId env (user p) of
        None \<Rightarrow> s0\<lparr>isSubmitting := False\<rparr>
      | Some uid \<Rightarrow>
          if uid = [] then s0\<lparr>isSubmitting := False\<rparr>
          else
            (let c = \<lparr>sc_uid = uid, sc_optimisticId = ''optimistic-'' @ decimal now,
                      sc_now = now, sc_input = input s, sc_files = files p,
                      sc_messages = messages s, sc_user = user p,
                      sc_selectedModel = selectedModel p,
                      sc_enableSearch = enableSearch s\<rparr>
             in submit_settle env c (submit_begin env c s0)))"

subsection \<open>The interval callback (lines 350-428)\<close>

fun queueIdsOf :: "PendingQueueMessage list \<Rightarrow> string list" where
  "queueIdsOf [] = []"
| "queueIdsOf (job # jobs) =
     (case queueId job of
        None \<Rightarrow> queueIdsOf jobs
      | Some q \<Rightarrow> if q = [] then queueIdsOf jobs else q # queueIdsOf jobs)"

text \<open>The filter callback of lines 391-401: \<open>True\<close> keeps the job.\<close>

definition keepJob :: "string list \<Rightarrow> string list \<Rightarrow> PendingQueueMessage \<Rightarrow> bool" where
  "keepJob failedIds completedIds job =
     (case queueId job of
        None \<Rightarrow> True
      | Some q \<Rightarrow>
          if q = [] then True
          else if q \<in> set failedIds then False
          else if q \<in> set completedIds then False
          else True)"

definition failedJob :: "string list \<Rightarrow> PendingQueueMessage \<Rightarrow> bool" where
  "failedJob failedIds job =
     (case queueId job of None \<Rightarrow> False | Some q \<Rightarrow> q \<noteq> [] \<and> q \<in> set failedIds)"

definition regenerateBody :: "poll_closure \<Rightarrow> RegenerateBody" where
  "regenerateBody pc =
     \<lparr>rg_chatId = pc_chatId pc, rg_userId = pc_uid pc, rg_model = pc_model pc,
      rg_isAuthenticated = pc_isAuthenticated pc, rg_systemPrompt = pc_systemPrompt pc\<rparr>"

text \<open>Lines 379-415: the answer has \<open>success\<close>. The call of \<open>regenerate\<close> is logged
  and its change of the transcript applied.\<close>

definition reconcile ::
  "poll_closure \<Rightarrow> collaborators \<Rightarrow> QueueStatusResponse \<Rightarrow> engine \<Rightarrow> engine" where
  "reconcile pc env resp s =
     (let completed = filter (\<lambda>job. qe_status job = Q_completed) (qs_queue resp);
          failed = filter (\<lambda>job. qe_status job = Q_failed \<or> qe_status job = Q_cancelled)
                     (qs_queue resp)
      in if completed \<noteq> [] \<or> failed \<noteq> [] then
           (let completedIds = map qe_id completed;
                failedIds = map qe_id failed;
                prev = pendingQueueJobs s;
                s1 = s\<lparr>pendingQueueJobs := filter (keepJob failedIds completedIds) prev,
                       effects := effects s @
                         map (\<lambda>job. Toast ''Queued message failed'' None Toast_error)
                             (filter (failedJob failedIds) prev)\<rparr>
            in if completed \<noteq> []
               then s1\<lparr>messages := regenerate env (regenerateBody pc) (messages s1),
                       effects := effects s1 @ [Regenerate (regenerateBody pc)]\<rparr>
               else s1)
         else s)"

text \<open>Lines 416-427: the catch block of the callback.\<close>

definition tick_catch :: "string \<Rightarrow> engine \<Rightarrow> engine" where
  "tick_catch msg s =
     (let s1 = s\<lparr>pollFailureCount := pollFailureCount s + 1,
                 effects := effects s @ [ConsoleError ''Failed to poll queue status'' msg]\<rparr>
      in if pollFailureCount s1 \<ge> MAX_QUEUE_POLL_FAILURES
         then (clearPolling s1)
                \<lparr>effects := effects s1 @
                   [Toast ''Queue updates paused''
                      (Some ''Stopped polling after repeated failures.'') Toast_warning]\<rparr>
         else s1)"

definition statusRequest :: "poll_closure \<Rightarrow> engine \<Rightarrow> StatusRequest" where
  "statusRequest pc s =
     \<lparr>st_userId = pc_uid pc, st_isAuthenticated = pc_isAuthenticated pc,
      st_queueIds = queueIdsOf (pendingQueueJobs s)\<rparr>"

text \<open>Lines 375-427, after the \<open>await\<close>: \<open>answer\<close> is what \<open>postJson\<close> gave, \<open>Inl\<close>
  when it threw.\<close>

definition tick_settle ::
  "poll_closure \<Rightarrow> collaborators \<Rightarrow> string + QueueStatusResponse \<Rightarrow> engine \<Rightarrow> engine"
  where
  "tick_settle pc env answer s =
     (case answer of
        Inl msg \<Rightarrow> tick_catch msg s
      | Inr resp \<Rightarrow>
          if \<not> qs_success resp
          then tick_catch (js_or (qs_error resp) ''Failed to fetch queue status'') s
          else reconcile pc env resp s)"

text \<open>The whole callback, its request answered before anything else runs.\<close>

definition tick_body :: "poll_closure \<Rightarrow> collaborators \<Rightarrow> engine \<Rightarrow> engine" where
  "tick_body pc env s =
     (if pendingQueueJobs s = [] then clearPolling s
      else if queueIdsOf (pendingQueueJobs s) = [] then s
      else
        (let req = statusRequest pc s
         in tick_settle pc env (postJson (fetchStatus env req))
              (s\<lparr>effects := effects s @ [PostStatus req]\<rparr>)))"

text \<open>The callback runs only while the interval is set.\<close>

definition pollTick :: "collaborators \<Rightarrow> engine \<Rightarrow> engine" where
  "pollTick env s = (case pollInterval s of None \<Rightarrow> s | Some pc \<Rightarrow> tick_body pc env s)"

subsection \<open>handleCancelQueuedJob (lines 572-593)\<close>

definition cancelRequest :: "props \<Rightarrow> string \<Rightarrow> CancelRequest" where
  "cancelRequest p qid =
     \<lparr>cn_queueId = qid,
      cn_userId = (case user p of None \<Rightarrow> None | Some u \<Rightarrow> Some (profile_id u)),
      cn_isAuthenticated = isAuthenticated (user p)\<rparr>"

text \<open>Up to the \<open>await\<close>: the table is filtered and the request is sent.\<close>

definition cancel_begin :: "props \<Rightarrow> string \<Rightarrow> engine \<Rightarrow> engine" where
  "cancel_begin p qid s =
     s\<lparr>pendingQueueJobs := filter (\<lambda>job. queueId job \<noteq> Some qid) (pendingQueueJobs s),
       effects := effects s @ [PostCancel (cancelRequest p qid)]\<rparr>"

text \<open>After the \<open>await\<close>: only a thrown error is looked at, the body of an ok answer
  is not read.\<close>

definition cancel_settle :: "CancelResponse fetch_result \<Rightarrow> engine \<Rightarrow> engine" where
  "cancel_settle answer s =
     (case postJson answer of
        Inl msg \<Rightarrow>
          s\<lparr>effects := effects s @
              [ConsoleError ''Failed to cancel queue job'' msg,
               Toast ''Failed to cancel job'' None Toast_error]\<rparr>
      | Inr _ \<Rightarrow> s)"

definition handleCancelQueuedJob ::
  "collaborators \<Rightarrow> props \<Rightarrow> string \<Rightarrow> engine \<Rightarrow> engine" where
  "handleCancelQueuedJob env p qid s =
     cancel_settle (fetchCancel env (cancelRequest p qid)) (cancel_begin p qid s)"

subsection \<open>Runs of the hook\<close>

datatype event =
    Submit_begin collaborators submit_closure
  | Submit_settle collaborators submit_closure
  | Poll_tick collaborators
  | Cancel_begin props string
  | Cancel_settle "CancelResponse fetch_result"
  | Render_chatId "string option"

fun fire :: "event \<Rightarrow> engine \<Rightarrow> engine" where
  "fire (Submit_begin env c) s = submit_begin env c s"
| "fire (Submit_settle env c) s = submit_settle env c s"
| "fire (Poll_tick env) s = pollTick env s"
| "fire (Cancel_begin p qid) s = cancel_begin p qid s"
| "fire (Cancel_settle answer) s = cancel_settle answer s"
| "fire (Render_chatId chatId) s = renderChatId chatId s"

text \<open>One handler, then the render with its effect on the table length.\<close>

definition step :: "engine \<Rightarrow> event \<Rightarrow> engine" where
  "step s e = afterRender s (fire e s)"

definition run :: "engine \<Rightarrow> event list \<Rightarrow> engine" where
  "run s es = foldl step s es"

definition initial :: "string option \<Rightarrow> AppMessage list \<Rightarrow> string \<Rightarrow> engine" where
  "initial chatId initialMessages draftValue =
     \<lparr>messages = initialMessages, input = draftValue, enableSearch = False,
      isSubmitting = False, pendingQueueJobs = [], pollInterval = None,
      pollFailureCount = 0, hasSentFirstMessage = False, prevChatId = chatId,
      effects = []\<rparr>"

text \<open>The effects a handler added to the log.\<close>

definition newEffects :: "engine \<Rightarrow> engine \<Rightarrow> effect list" where
  "newEffects s s' = drop (length (effects s)) (effects s')"

subsection \<open>Sessions driven by the hook\<close>

text \<open>\<open>regenerate\<close> makes the ids of the messages it adds itself. The property below,
  of a collaborator and a set of ids, says that a call of \<open>regenerate\<close> puts no message
  under one of these ids that the transcript did not hold before.\<close>

definition addsNoMessageUnder :: "collaborators \<Rightarrow> string set \<Rightarrow> bool" where
  "addsNoMessageUnder env ids =
     (\<forall>body ms. \<forall>i\<in>ids. i \<in> msg_id ` set (regenerate env body ms) \<longrightarrow> i \<in> msg_id ` set ms)"

text \<open>The states a session reaches: the hook is mounted, then its handlers run, each
  followed by the render. A submission draws its optimistic id from \<open>Date.now()\<close>
  (line 222); the rule asks that it is not the client id of an entry of the table. A
  tick may call \<open>regenerate\<close>, which puts no message under a client id of the table.
  The transcript belongs to \<open>useChat\<close> and is also written outside the handlers
  modelled here (streamed answers, \<open>handleSuggestion\<close>, \<open>handleReload\<close>): the last
  rule lets the transcript change in any way that puts no new message under a client
  id of the table.\<close>

inductive hookDriven :: "engine \<Rightarrow> bool" where
  mounted: "hookDriven (initial chatId initialMessages draftValue)"
| submit_begins:
    "hookDriven s \<Longrightarrow> sc_optimisticId c \<notin> clientId ` set (pendingQueueJobs s) \<Longrightarrow>
     hookDriven (step s (Submit_begin env c))"
| submit_settles: "hookDriven s \<Longrightarrow> hookDriven (step s (Submit_settle env c))"
| ticks:
    "hookDriven s \<Longrightarrow> addsNoMessageUnder env (clientId ` set (pendingQueueJobs s)) \<Longrightarrow>
     hookDriven (step s (Poll_tick env))"
| cancel_begins: "hookDriven s \<Longrightarrow> hookDriven (step s (Cancel_begin p qid))"
| cancel_settles: "hookDriven s \<Longrightarrow> hookDriven (step s (Cancel_settle answer))"
| renders: "hookDriven s \<Longrightarrow> hookDriven (step s (Render_chatId chatId))"
| conversation_layer:
    "hookDriven s \<Longrightarrow>
     \<forall>job\<in>set (pendingQueueJobs s).
        clientId job \<in> msg_id ` set ms \<longrightarrow> clientId job \<in> msg_id ` set (messages s) \<Longrightarrow>
     hookDriven (s\<lparr>messages := ms\<rparr>)"

text \<open>Client ids are distinct in the table, and a table entry that has its server id
  has no transcript message under its client id.\<close>

definition tidy :: "engine \<Rightarrow> bool" where
  "tidy s =
     (distinct (map clientId (pendingQueueJobs s)) \<and>
      (\<forall>job\<in>set (pendingQueueJobs s).
         queueId job \<noteq> None \<longrightarrow> clientId job \<notin> msg_id ` set (messages s)))"

subsection \<open>Reading the log\<close>

fun isRegenerate :: "effect \<Rightarrow> bool" where
  "isRegenerate (Regenerate _) = True"
| "isRegenerate _ = False"

fun isPostEnqueue :: "effect \<Rightarrow> bool" where
  "isPostEnqueue (PostEnqueue _) = True"
| "isPostEnqueue _ = False"

fun isNetwork :: "effect \<Rightarrow> bool" where
  "isNetwork (PostEnqueue _) = True"
| "isNetwork (PostStatus _) = True"
| "isNetwork (PostCancel _) = True"
| "isNetwork _ = False"

fun isToast :: "effect \<Rightarrow> bool" where
  "isToast (Toast _ _ _) = True"
| "isToast _ = False"

subsection \<open>Concrete sessions\<close>

text \<open>A guest session: no profile, no files. Every gate lets the prompt through; the
  enqueue and status endpoints answer as given; \<open>regenerate\<close> drops a last message
  that is the assistant's.\<close>

definition guest :: props where
  "guest = \<lparr>user = None, files = [], selectedModel = ''gpt''\<rparr>"

definition server ::
  "EnqueueResponse fetch_result \<Rightarrow> QueueStatusResponse fetch_result \<Rightarrow> collaborators" where
  "server enq st =
     \<lparr>getOrCreateGuestUserId =
        (\<lambda>u. case u of None \<Rightarrow> Some ''guest-1'' | Some p \<Rightarrow> Some (profile_id p)),
      createOptimisticAttachments =
        map (\<lambda>f. \<lparr>oa_name = file_name f, oa_contentType = file_type f,
                   oa_url = ''blob:'' @ file_name f\<rparr>),
      checkLimitsAndNotify = (\<lambda>uid. True),
      ensureChatExists = (\<lambda>uid text. Some ''chat-1''),
      handleFileUploads = (\<lambda>uid chat. Some []),
      fetchEnqueue = (\<lambda>req. enq),
      fetchStatus = (\<lambda>req. st),
      fetchCancel = (\<lambda>req. Ok_json \<lparr>cn_success = True, cn_error = None\<rparr>),
      regenerate =
        (\<lambda>body ms. if ms \<noteq> [] \<and> msg_role (last ms) = ''assistant'' then butlast ms else ms),
      MESSAGE_MAX_LENGTH = 10000,
      SYSTEM_PROMPT_DEFAULT = ''You are a helpful assistant.''\<rparr>"

definition accepted :: "string \<Rightarrow> EnqueueResponse fetch_result" where
  "accepted qid =
     Ok_json \<lparr>enq_success = True,
              enq_queue = Some \<lparr>q_id = qid, q_status = ''pending''\<rparr>,
              enq_error = None\<rparr>"

definition reports :: "(string \<times> queue_status) list \<Rightarrow> QueueStatusResponse fetch_result" where
  "reports entries =
     Ok_json \<lparr>qs_success = True,
              qs_queue = map (\<lambda>(i, st). \<lparr>qe_id = i, qe_status = st\<rparr>) entries,
              qs_error = None\<rparr>"

definition unreachable :: "QueueStatusResponse fetch_result" where
  "unreachable = Fetch_rejects ''fetch failed''"

definition hello :: "string \<Rightarrow> submit_closure" where
  "hello oid =
     \<lparr>sc_uid = ''guest-1'', sc_optimisticId = oid, sc_now = 1, sc_input = ''Hello'',
      sc_files = [], sc_messages = [], sc_user = None, sc_selectedModel = ''gpt'',
      sc_enableSearch = False\<rparr>"

text \<open>One prompt sent and accepted by the queue as \<open>q1\<close>.\<close>

definition oneQueued :: engine where
  "oneQueued =
     run (initial (Some ''chat-1'') [] ''Hello'')
       [Submit_begin (server (accepted ''q1'') (reports [])) (hello ''optimistic-1''),
        Submit_settle (server (accepted ''q1'') (reports [])) (hello ''optimistic-1'')]"

text \<open>A second prompt sent and accepted as \<open>q2\<close>.\<close>

definition twoQueued :: engine where
  "twoQueued =
     run oneQueued
       [Submit_begin (server (accepted ''q2'') (reports [])) (hello ''optimistic-2''),
        Submit_settle (server (accepted ''q2'') (reports [])) (hello ''optimistic-2'')]"

text \<open>The four gates of \<open>submit\<close>: the rate limit refuses, the chat bootstrap gives no
  chat id, the prompt is longer than the ceiling, or there are files and their upload
  gives \<open>null\<close>.\<close>

definition gateFails :: "collaborators \<Rightarrow> submit_closure \<Rightarrow> bool" where
  "gateFails env c =
     (\<not> checkLimitsAndNotify env (sc_uid c) \<or>
      (case ensureChatExists env (sc_uid c) (sc_input c) of
         None \<Rightarrow> True | Some chat \<Rightarrow> chat = []) \<or>
      length (sc_input c) > MESSAGE_MAX_LENGTH env \<or>
      (sc_files c \<noteq> [] \<and>
       (case ensureChatExists env (sc_uid c) (sc_input c) of
          None \<Rightarrow> False
        | Some chat \<Rightarrow> handleFileUploads env (sc_uid c) chat = None)))"

text \<open>A server whose message ceiling is four characters.\<close>

definition terse :: collaborators where
  "terse = (server (accepted ''q1'') (reports []))\<lparr>MESSAGE_MAX_LENGTH := 4\<rparr>"

text \<open>A queue that refuses the prompt: \<open>{success: false, error: "rate limited"}\<close>.\<close>

definition refusing :: collaborators where
  "refusing =
     server (Ok_json \<lparr>enq_success = False, enq_queue = None,
                      enq_error = Some ''rate limited''\<rparr>) (reports [])"

text \<open>The prompt "Hello" shown optimistically, its enqueue not yet answered.\<close>

definition helloSent :: engine where
  "helloSent =
     step (initial (Some ''chat-1'') [] ''Hello'') (Submit_begin refusing (hello ''optimistic-1''))"

text \<open>A chat that already holds a message, and one prompt queued in it.\<close>

definition greeting :: AppMessage where
  "greeting =
     \<lparr>msg_id = ''m0'', msg_role = ''assistant'', msg_parts = [TextPart ''Hi''],
      msg_createdAt = 0, msg_content = ''Hi'', experimental_attachments = None\<rparr>"

definition queuedAfterGreeting :: engine where
  "queuedAfterGreeting =
     run (initial (Some ''chat-1'') [greeting] ''Hello'')
       [Submit_begin (server (accepted ''q1'') (reports []))
          ((hello ''optimistic-1'')\<lparr>sc_messages := [greeting]\<rparr>),
        Submit_settle (server (accepted ''q1'') (reports []))
          ((hello ''optimistic-1'')\<lparr>sc_messages := [greeting]\<rparr>)]"

text \<open>A tick that sends its status request and ends in the catch block: the request
  throws, or its answer has \<open>success = false\<close>.\<close>

definition tickFails :: "poll_closure \<Rightarrow> collaborators \<Rightarrow> engine \<Rightarrow> bool" where
  "tickFails pc env s =
     (queueIdsOf (pendingQueueJobs s) \<noteq> [] \<and>
      (case postJson (fetchStatus env (statusRequest pc s)) of
         Inl _ \<Rightarrow> True
       | Inr resp \<Rightarrow> \<not> qs_success resp))"

text \<open>More sessions: a status endpoint that cannot be reached, one that reports \<open>q1\<close>
  as still processing; one to five failed ticks after \<open>oneQueued\<close>; a second prompt
  accepted after the fifth; and a second prompt still waiting for its enqueue answer
  while a tick completes the first.\<close>

definition statusDown :: collaborators where
  "statusDown = server (accepted ''q2'') unreachable"

definition busy :: collaborators where
  "busy = server (accepted ''q2'') (reports [(''q1'', Q_processing)])"

definition guestClosure :: poll_closure where
  "guestClosure =
     \<lparr>pc_uid = ''guest-1'', pc_chatId = ''chat-1'', pc_model = ''gpt'',
      pc_isAuthenticated = False, pc_systemPrompt = ''You are a helpful assistant.''\<rparr>"

definition failedOnce :: engine where
  "failedOnce = step oneQueued (Poll_tick statusDown)"

definition failedTwice :: engine where
  "failedTwice = step failedOnce (Poll_tick statusDown)"

definition failedThrice :: engine where
  "failedThrice = step failedTwice (Poll_tick statusDown)"

definition failedFourTimes :: engine where
  "failedFourTimes = step failedThrice (Poll_tick statusDown)"

definition paused :: engine where
  "paused = step failedFourTimes (Poll_tick statusDown)"

definition resumed :: engine where
  "resumed =
     run paused
       [Submit_begin statusDown (hello ''optimistic-2''), Submit_settle statusDown (hello ''optimistic-2'')]"

definition waiting :: engine where
  "waiting =
     run oneQueued
       [Submit_begin statusDown (hello ''optimistic-2''),
        Poll_tick (server (accepted ''q2'') (reports [(''q1'', Q_completed)]))]"

text \<open>The two table entries of \<open>twoQueued\<close>, and a status answer that reports both as
  completed.\<close>

definition bothCompleted :: QueueStatusResponse where
  "bothCompleted =
     \<lparr>qs_success = True,
      qs_queue = [\<lparr>qe_id = ''q1'', qe_status = Q_completed\<rparr>,
                  \<lparr>qe_id = ''q2'', qe_status = Q_completed\<rparr>],
      qs_error = None\<rparr>"

definition job1 :: PendingQueueMessage where
  "job1 =
     \<lparr>clientId = ''optimistic-1'', queueId = Some ''q1'', status = Pending,
      content = ''Hello'', createdAt = 1, optimisticAttachments = []\<rparr>"


section \<open>Properties\<close>

subsection \<open>Unfolding the handlers on concrete sessions\<close>

lemmas handler_defs =
  run_def step_def afterRender_def pendingLengthEffect_def clearPolling_def initial_def
  submit_begin_def submit_settle_def enqueue_def enqueued_def enqueueRequest_def
  rejectSubmission_def submitFailed_def pollTick_def tick_body_def tick_settle_def tick_catch_def
  reconcile_def statusRequest_def keepJob_def failedJob_def queueMessage_def
  optimisticMessage_def optimisticAttachmentsOf_def pollClosure_def isAuthenticated_def
  systemPrompt_def regenerateBody_def cancel_begin_def cancel_settle_def cancelRequest_def
  renderChatId_def newEffects_def filePartUrls_def
  MAX_QUEUE_POLL_FAILURES_def tooLongTitle_def

lemmas fixture_defs = guest_def server_def accepted_def reports_def unreachable_def hello_def

lemma oneQueued_value:
  "oneQueued =
     \<lparr>messages = [], input = [], enableSearch = False, isSubmitting = False,
      pendingQueueJobs =
        [\<lparr>clientId = ''optimistic-1'', queueId = Some ''q1'', status = Pending,
          content = ''Hello'', createdAt = 1, optimisticAttachments = []\<rparr>],
      pollInterval =
        Some \<lparr>pc_uid = ''guest-1'', pc_chatId = ''chat-1'', pc_model = ''gpt'',
              pc_isAuthenticated = False,
              pc_systemPrompt = ''You are a helpful assistant.''\<rparr>,
      pollFailureCount = 0, hasSentFirstMessage = True, prevChatId = Some ''chat-1'',
      effects =
        [SetFiles [],
         PostEnqueue
           \<lparr>enq_userId = ''guest-1'', enq_chatId = ''chat-1'', enq_model = ''gpt'',
            enq_isAuthenticated = False,
            enq_systemPrompt = ''You are a helpful assistant.'',
            enq_enableSearch = False,
            enq_messages = [New_user_message ''optimistic-1'' ''user'' ''Hello''],
            enq_attachments = []\<rparr>,
         CleanupOptimisticAttachments [],
         CacheAndAddMessage
           \<lparr>msg_id = ''optimistic-1'', msg_role = ''user'',
            msg_parts = [TextPart ''Hello''], msg_createdAt = 1,
            msg_content = ''Hello'', experimental_attachments = None\<rparr>,
         ClearDraft]\<rparr>"
  by (simp add: oneQueued_def handler_defs fixture_defs Let_def)

lemma twoQueued_state:
  "pendingQueueJobs twoQueued =
     [\<lparr>clientId = ''optimistic-1'', queueId = Some ''q1'', status = Pending,
       content = ''Hello'', createdAt = 1, optimisticAttachments = []\<rparr>,
      \<lparr>clientId = ''optimistic-2'', queueId = Some ''q2'', status = Pending,
       content = ''Hello'', createdAt = 1, optimisticAttachments = []\<rparr>]"
  "pollInterval twoQueued =
     Some \<lparr>pc_uid = ''guest-1'', pc_chatId = ''chat-1'', pc_model = ''gpt'',
           pc_isAuthenticated = False,
           pc_systemPrompt = ''You are a helpful assistant.''\<rparr>"
  "messages twoQueued = []"
  "pollFailureCount twoQueued = 0"
  by (simp_all add: twoQueued_def oneQueued_value handler_defs fixture_defs Let_def)

lemma helloSent_state:
  "pollInterval helloSent = None"
  "map clientId (pendingQueueJobs helloSent) = [''optimistic-1'']"
  "map queueId (pendingQueueJobs helloSent) = [None]"
  "map msg_id (messages helloSent) = [''optimistic-1'']"
  by (simp_all add: helloSent_def refusing_def handler_defs fixture_defs Let_def)

subsection \<open>What each handler adds to the log\<close>

lemma newEffects_extend: "effects s' = effects s @ ex \<Longrightarrow> newEffects s s' = ex"
  by (simp add: newEffects_def)

lemma newEffects_same: "newEffects s s = []"
  by (simp add: newEffects_def)

lemma newEffects_clearPolling: "newEffects s (clearPolling s) = []"
  by (simp add: newEffects_def clearPolling_def)

lemma effects_tick_catch:
  "effects (tick_catch msg s) =
     effects s @ ConsoleError ''Failed to poll queue status'' msg #
       (if MAX_QUEUE_POLL_FAILURES \<le> Suc (pollFailureCount s)
        then [Toast ''Queue updates paused''
                (Some ''Stopped polling after repeated failures.'') Toast_warning]
        else [])"
  by (simp add: tick_catch_def clearPolling_def Let_def)

lemma effects_reconcile:
  "effects (reconcile pc env resp s) =
     effects s @
       map (\<lambda>job. Toast ''Queued message failed'' None Toast_error)
         (filter
            (failedJob
               (map qe_id
                  (filter (\<lambda>job. qe_status job = Q_failed \<or> qe_status job = Q_cancelled)
                     (qs_queue resp))))
            (pendingQueueJobs s)) @
       (if filter (\<lambda>job. qe_status job = Q_completed) (qs_queue resp) \<noteq> []
        then [Regenerate (regenerateBody pc)] else [])"
  apply (simp add: reconcile_def Let_def)
  apply (auto simp: failedJob_def filter_empty_conv split: option.splits)
  done

lemma effects_rejectSubmission:
  "effects (rejectSubmission env c s) =
     effects s @ [CleanupOptimisticAttachments (map oa_url (optimisticAttachmentsOf env c))]"
  by (simp add: rejectSubmission_def)

lemma effects_submitFailed:
  "effects (submitFailed env c msg s) =
     effects s @
       [ConsoleError ''Failed to process queued submit'' msg,
        CleanupOptimisticAttachments (filePartUrls (msg_parts (optimisticMessage env c))),
        Toast ''Failed to queue message'' None Toast_error]"
  by (simp add: submitFailed_def)

lemma effects_enqueued:
  "effects (enqueued env c chat q s) =
     effects s @
       [CleanupOptimisticAttachments (map oa_url (optimisticAttachmentsOf env c)),
        CacheAndAddMessage (optimisticMessage env c), ClearDraft] @
       (if sc_messages c \<noteq> [] then [BumpChat chat] else [])"
  by (simp add: enqueued_def Let_def split: option.splits)

text \<open>The two ways \<open>enqueue\<close> ends.\<close>

lemma enqueue_cases:
  "(\<exists>msg. enqueue env c chat atts s =
      submitFailed env c msg
        (s\<lparr>effects := effects s @ [PostEnqueue (enqueueRequest env c chat atts)]\<rparr>)) \<or>
   (\<exists>q. enqueue env c chat atts s =
      enqueued env c chat q
        (s\<lparr>effects := effects s @ [PostEnqueue (enqueueRequest env c chat atts)]\<rparr>))"
  by (simp add: enqueue_def Let_def split: sum.splits option.splits) blast

lemma effects_enqueue:
  "\<exists>ex. effects (enqueue env c chat atts s) =
          effects s @ PostEnqueue (enqueueRequest env c chat atts) # ex \<and>
        filter isNetwork ex = []"
  using enqueue_cases [of env c chat atts s]
  by (auto simp: effects_submitFailed effects_enqueued)

text \<open>The ways \<open>submit_settle\<close> ends: at a gate, or in \<open>enqueue\<close>.\<close>

lemma submit_settle_cases:
  "(\<exists>ts. submit_settle env c s =
      (rejectSubmission env c (s\<lparr>effects := effects s @ ts\<rparr>))\<lparr>isSubmitting := False\<rparr> \<and>
      filter isNetwork ts = []) \<or>
   (\<exists>chat atts. submit_settle env c s = (enqueue env c chat atts s)\<lparr>isSubmitting := False\<rparr>)"
  (is "?rejected \<or> ?sent")
proof -
  have plain: "submit_settle env c s = (rejectSubmission env c s)\<lparr>isSubmitting := False\<rparr> \<Longrightarrow> ?rejected"
    by (rule exI [of _ "[]"]) simp
  have toast: "submit_settle env c s =
      (rejectSubmission env c
         (s\<lparr>effects := effects s @ [Toast (tooLongTitle env) None Toast_error]\<rparr>))
      \<lparr>isSubmitting := False\<rparr> \<Longrightarrow> ?rejected"
    by (rule exI [of _ "[Toast (tooLongTitle env) None Toast_error]"]) simp
  show ?thesis
  proof (cases "checkLimitsAndNotify env (sc_uid c)")
    case False
    then show ?thesis by (intro disjI1 plain) (simp add: submit_settle_def)
  next
    case allowed: True
    show ?thesis
    proof (cases "ensureChatExists env (sc_uid c) (sc_input c)")
      case None
      with allowed show ?thesis by (intro disjI1 plain) (simp add: submit_settle_def)
    next
      case (Some chat)
      consider "chat = []"
        | "chat \<noteq> []" "length (sc_input c) > MESSAGE_MAX_LENGTH env"
        | "chat \<noteq> []" "\<not> length (sc_input c) > MESSAGE_MAX_LENGTH env" "sc_files c = []"
        | "chat \<noteq> []" "\<not> length (sc_input c) > MESSAGE_MAX_LENGTH env" "sc_files c \<noteq> []"
        by blast
      then show ?thesis
      proof cases
        case 1
        with allowed Some show ?thesis by (intro disjI1 plain) (simp add: submit_settle_def)
      next
        case 2
        with allowed Some show ?thesis by (intro disjI1 toast) (simp add: submit_settle_def)
      next
        case 3
        with allowed Some
        have "submit_settle env c s = (enqueue env c chat [] s)\<lparr>isSubmitting := False\<rparr>"
          by (simp add: submit_settle_def)
        then show ?thesis by blast
      next
        case 4
        show ?thesis
        proof (cases "handleFileUploads env (sc_uid c) chat")
          case None
          with allowed Some 4 show ?thesis
            by (intro disjI1 plain) (simp add: submit_settle_def)
        next
          case (Some atts)
          with allowed \<open>ensureChatExists env (sc_uid c) (sc_input c) = Some chat\<close> 4
          have "submit_settle env c s = (enqueue env c chat atts s)\<lparr>isSubmitting := False\<rparr>"
            by (simp add: submit_settle_def)
          then show ?thesis by blast
        qed
      qed
    qed
  qed
qed

lemma effects_submit_settle:
  "\<exists>ex. effects (submit_settle env c s) = effects s @ ex \<and>
        (\<forall>r. PostEnqueue r \<in> set ex \<longrightarrow> (\<exists>chat atts. r = enqueueRequest env c chat atts)) \<and>
        (\<forall>r. PostStatus r \<notin> set ex) \<and> (\<forall>r. PostCancel r \<notin> set ex)"
proof -
  have net: "\<And>ts. filter isNetwork ts = [] \<Longrightarrow>
    (\<forall>r. PostEnqueue r \<notin> set ts) \<and> (\<forall>r. PostStatus r \<notin> set ts) \<and> (\<forall>r. PostCancel r \<notin> set ts)"
    by (force simp: filter_empty_conv)
  from submit_settle_cases [of env c s] show ?thesis
  proof
    assume "\<exists>ts. submit_settle env c s =
      (rejectSubmission env c (s\<lparr>effects := effects s @ ts\<rparr>))\<lparr>isSubmitting := False\<rparr> \<and>
      filter isNetwork ts = []"
    then obtain ts where eq: "submit_settle env c s =
      (rejectSubmission env c (s\<lparr>effects := effects s @ ts\<rparr>))\<lparr>isSubmitting := False\<rparr>"
      and ts: "filter isNetwork ts = []" by blast
    have "effects (submit_settle env c s) = effects s @ (ts @
       [CleanupOptimisticAttachments (map oa_url (optimisticAttachmentsOf env c))])"
      by (simp add: eq effects_rejectSubmission)
    with net [OF ts] show ?thesis by auto
  next
    assume "\<exists>chat atts. submit_settle env c s = (enqueue env c chat atts s)\<lparr>isSubmitting := False\<rparr>"
    then obtain chat atts where
      eq: "submit_settle env c s = (enqueue env c chat atts s)\<lparr>isSubmitting := False\<rparr>"
      by blast
    from effects_enqueue [of env c chat atts s] obtain ex where
      ex: "effects (enqueue env c chat atts s) =
             effects s @ PostEnqueue (enqueueRequest env c chat atts) # ex"
      and quiet: "filter isNetwork ex = []" by blast
    have "effects (submit_settle env c s) =
            effects s @ (PostEnqueue (enqueueRequest env c chat atts) # ex)"
      by (simp add: eq ex)
    with net [OF quiet] show ?thesis by auto
  qed
qed

lemma pollInterval_rejectSubmission [simp]:
  "pollInterval (rejectSubmission env c s) = pollInterval s"
  by (simp add: rejectSubmission_def)

lemma pollInterval_submitFailed [simp]:
  "pollInterval (submitFailed env c msg s) = pollInterval s"
  by (simp add: submitFailed_def)

lemma pollInterval_enqueued:
  "pollInterval (enqueued env c chat q s) =
     (case pollInterval s of None \<Rightarrow> Some (pollClosure env c chat) | Some pc \<Rightarrow> Some pc)"
  by (simp add: enqueued_def Let_def split: option.splits)

lemma pollInterval_submit_settle:
  "pollInterval (submit_settle env c s) = pollInterval s \<or>
   (pollInterval s = None \<and>
    (\<exists>chat. pollInterval (submit_settle env c s) = Some (pollClosure env c chat)))"
proof -
  from submit_settle_cases [of env c s] show ?thesis
  proof (elim disjE exE conjE)
    fix ts
    assume "submit_settle env c s =
      (rejectSubmission env c (s\<lparr>effects := effects s @ ts\<rparr>))\<lparr>isSubmitting := False\<rparr>"
    then show ?thesis by simp
  next
    fix chat atts
    assume eq: "submit_settle env c s = (enqueue env c chat atts s)\<lparr>isSubmitting := False\<rparr>"
    from enqueue_cases [of env c chat atts s] show ?thesis
      by (auto simp: eq pollInterval_enqueued split: option.splits)
  qed
qed

lemma effects_tick_body:
  "\<exists>ex. effects (tick_body pc env s) = effects s @ ex \<and>
        (\<forall>r. PostStatus r \<in> set ex \<longrightarrow> r = statusRequest pc s) \<and>
        (\<forall>r. PostEnqueue r \<notin> set ex) \<and> (\<forall>r. PostCancel r \<notin> set ex)"
  by (auto simp: tick_body_def tick_settle_def Let_def clearPolling_def effects_tick_catch effects_reconcile
        split: sum.splits)

lemma effects_submit_begin:
  "effects (submit_begin env c s) = effects s @ [SetFiles []]"
  by (simp add: submit_begin_def)

lemma enqueue_of_submit:
  assumes "PostEnqueue r \<in> set (newEffects s (submit env p now s))"
  shows "getOrCreateGuestUserId env (user p) = Some (enq_userId r) \<and> enq_userId r \<noteq> []"
proof (cases "getOrCreateGuestUserId env (user p)")
  case None
  with assms show ?thesis by (simp add: submit_def newEffects_def)
next
  case (Some uid)
  show ?thesis
  proof (cases "uid = []")
    case True
    with Some assms show ?thesis by (simp add: submit_def newEffects_def)
  next
    case False
    define c where "c = \<lparr>sc_uid = uid, sc_optimisticId = ''optimistic-'' @ decimal now,
                      sc_now = now, sc_input = input s, sc_files = files p,
                      sc_messages = messages s, sc_user = user p,
                      sc_selectedModel = selectedModel p,
                      sc_enableSearch = enableSearch s\<rparr>"
    define s0 where "s0 = submit_begin env c (s\<lparr>isSubmitting := True\<rparr>)"
    have run: "submit env p now s = submit_settle env c s0"
      using Some False by (simp add: submit_def c_def s0_def Let_def)
    from effects_submit_settle [of env c s0] obtain ex where
      ex: "effects (submit_settle env c s0) = effects s0 @ ex"
      and req: "\<forall>r. PostEnqueue r \<in> set ex \<longrightarrow> (\<exists>chat atts. r = enqueueRequest env c chat atts)"
      by blast
    have "effects s0 = effects s @ [SetFiles []]"
      by (simp add: s0_def effects_submit_begin)
    then have "effects (submit env p now s) = effects s @ (SetFiles [] # ex)"
      by (simp add: run ex)
    then have "newEffects s (submit env p now s) = SetFiles [] # ex"
      by (rule newEffects_extend)
    with assms have "PostEnqueue r \<in> set ex" by simp
    with req obtain chat atts where "r = enqueueRequest env c chat atts" by blast
    then have "enq_userId r = uid" by (simp add: enqueueRequest_def c_def)
    with Some False show ?thesis by simp
  qed
qed

subsection \<open>What the handlers do to the transcript and the table\<close>

lemma filter_removes_key:
  assumes "distinct (map f xs)" "x \<in> set xs" "\<not> P x"
  shows "f x \<notin> f ` set (filter P xs)"
proof
  assume "f x \<in> f ` set (filter P xs)"
  then obtain y where y: "y \<in> set xs" "P y" "f y = f x" by auto
  from assms(1) have "inj_on f (set xs)" by (simp add: distinct_map)
  with y assms(2) have "y = x" by (auto dest: inj_onD)
  with y assms(3) show False by simp
qed

lemma messages_tick_catch [simp]: "messages (tick_catch msg s) = messages s"
  by (simp add: tick_catch_def clearPolling_def Let_def)

lemma messages_reconcile:
  "messages (reconcile pc env resp s) =
     (if \<exists>e\<in>set (qs_queue resp). qe_status e = Q_completed
      then regenerate env (regenerateBody pc) (messages s) else messages s)"
  by (simp add: reconcile_def Let_def filter_empty_conv)

lemma jobs_reconcile:
  "pendingQueueJobs (reconcile pc env resp s) =
     filter
       (keepJob
          (map qe_id (filter (\<lambda>job. qe_status job = Q_failed \<or> qe_status job = Q_cancelled)
                        (qs_queue resp)))
          (map qe_id (filter (\<lambda>job. qe_status job = Q_completed) (qs_queue resp))))
       (pendingQueueJobs s)"
proof -
  have "filter (keepJob [] []) (pendingQueueJobs s) = pendingQueueJobs s"
    by (simp add: keepJob_def split: option.splits)
  then show ?thesis
    by (simp add: reconcile_def Let_def)
qed

lemma terminal_not_kept:
  assumes "queueId job = Some q" "q \<noteq> []" "e \<in> set (qs_queue resp)" "qe_id e = q"
      and "qe_status e = Q_completed \<or> qe_status e = Q_failed \<or> qe_status e = Q_cancelled"
  shows "\<not> keepJob
          (map qe_id (filter (\<lambda>job. qe_status job = Q_failed \<or> qe_status job = Q_cancelled)
                        (qs_queue resp)))
          (map qe_id (filter (\<lambda>job. qe_status job = Q_completed) (qs_queue resp))) job"
  using assms by (auto simp: keepJob_def)

lemma messages_enqueued:
  "messages (enqueued env c chat q s) = filter (\<lambda>m. msg_id m \<noteq> sc_optimisticId c) (messages s)"
  by (simp add: enqueued_def Let_def split: option.splits)

lemma jobs_enqueued:
  "pendingQueueJobs (enqueued env c chat q s) =
     map (\<lambda>item. if clientId item = sc_optimisticId c
                  then item\<lparr>queueId := Some (q_id q),
                            status := (if q_status q = ''processing'' then Processing else Pending)\<rparr>
                  else item)
       (pendingQueueJobs s)"
  by (simp add: enqueued_def Let_def split: option.splits)

lemma set_queueIdsOf:
  "set (queueIdsOf jobs) = {q. q \<noteq> [] \<and> (\<exists>job\<in>set jobs. queueId job = Some q)}"
  by (induction jobs) (auto split: option.splits)

lemma queueIdsOf_nonempty:
  "job \<in> set jobs \<Longrightarrow> queueId job = Some q \<Longrightarrow> q \<noteq> [] \<Longrightarrow> queueIdsOf jobs \<noteq> []"
  using set_queueIdsOf [of jobs] by (metis (mono_tags, lifting) empty_iff list.set(1) mem_Collect_eq)

lemma jobs_answered_tick:
  assumes "pollInterval s = Some pc"
      and "postJson (fetchStatus env (statusRequest pc s)) = Inr resp" "qs_success resp"
      and "queueIdsOf (pendingQueueJobs s) \<noteq> []"
  shows "pollTick env s =
           reconcile pc env resp (s\<lparr>effects := effects s @ [PostStatus (statusRequest pc s)]\<rparr>)"
proof -
  from assms(4) have "pendingQueueJobs s \<noteq> []" by auto
  with assms show ?thesis by (simp add: pollTick_def tick_body_def tick_settle_def Let_def)
qed

subsection \<open>Regeneration\<close>

lemma regenerations_tick_catch:
  "filter isRegenerate
     (newEffects s (tick_catch msg (s\<lparr>effects := effects s @ [PostStatus req]\<rparr>))) = []"
  by (simp add: newEffects_def effects_tick_catch)

lemma regenerations_reconcile:
  "filter isRegenerate
     (newEffects s (reconcile pc env resp (s\<lparr>effects := effects s @ [PostStatus req]\<rparr>))) =
   (if (\<exists>e\<in>set (qs_queue resp). qe_status e = Q_completed)
    then [Regenerate (regenerateBody pc)] else [])"
  by (simp add: newEffects_def effects_reconcile filter_empty_conv filter_map comp_def)

lemma regenerations_tick_body:
  "filter isRegenerate (newEffects s (tick_body pc env s)) =
     (case postJson (fetchStatus env (statusRequest pc s)) of
        Inl _ \<Rightarrow> []
      | Inr resp \<Rightarrow>
          if pendingQueueJobs s \<noteq> [] \<and> queueIdsOf (pendingQueueJobs s) \<noteq> [] \<and>
             qs_success resp \<and> (\<exists>e\<in>set (qs_queue resp). qe_status e = Q_completed)
          then [Regenerate (regenerateBody pc)] else [])"
  by (simp add: tick_body_def tick_settle_def Let_def regenerations_tick_catch regenerations_reconcile
        newEffects_same newEffects_clearPolling split: sum.splits)

lemma regenerations_tick_settle:
  "filter isRegenerate (newEffects s (tick_settle pc env answer s)) =
     (case answer of
        Inl _ \<Rightarrow> []
      | Inr resp \<Rightarrow>
          if qs_success resp \<and> (\<exists>e\<in>set (qs_queue resp). qe_status e = Q_completed)
          then [Regenerate (regenerateBody pc)] else [])"
  by (simp add: tick_settle_def newEffects_def effects_tick_catch effects_reconcile
        filter_empty_conv filter_map comp_def split: sum.splits)

text \<open>
  Claim C2. A poll tick issues the regeneration request at most once, however many jobs
  its status answer reports as completed, and it issues the request only if the answer
  (a round-tripped answer with \<open>success\<close>) reports at least one job as completed. The
  same holds for the part of the tick that follows the answer, in whatever state the
  answer finds the hook.
\<close>

theorem C2_regenerate_at_most_once_per_tick:
  "length (filter isRegenerate (newEffects s (pollTick env s))) \<le> 1 \<and>
   (length (filter isRegenerate (newEffects s (pollTick env s))) = 1 \<longrightarrow>
      (\<exists>pc resp. pollInterval s = Some pc \<and>
         postJson (fetchStatus env (statusRequest pc s)) = Inr resp \<and> qs_success resp \<and>
         (\<exists>e\<in>set (qs_queue resp). qe_status e = Q_completed))) \<and>
   length (filter isRegenerate (newEffects s' (tick_settle pc' env' answer s'))) \<le> 1 \<and>
   (length (filter isRegenerate (newEffects s' (tick_settle pc' env' answer s'))) = 1 \<longrightarrow>
      (\<exists>resp. answer = Inr resp \<and> qs_success resp \<and>
         (\<exists>e\<in>set (qs_queue resp). qe_status e = Q_completed)))"
proof -
  have whole: "length (filter isRegenerate (newEffects s (pollTick env s))) \<le> 1 \<and>
   (length (filter isRegenerate (newEffects s (pollTick env s))) = 1 \<longrightarrow>
      (\<exists>pc resp. pollInterval s = Some pc \<and>
         postJson (fetchStatus env (statusRequest pc s)) = Inr resp \<and> qs_success resp \<and>
         (\<exists>e\<in>set (qs_queue resp). qe_status e = Q_completed)))"
  proof (cases "pollInterval s")
    case None
    then show ?thesis by (simp add: pollTick_def newEffects_same)
  next
    case (Some pc)
    then show ?thesis
      by (simp add: pollTick_def regenerations_tick_body split: sum.splits)
  qed
  have part: "length (filter isRegenerate (newEffects s' (tick_settle pc' env' answer s'))) \<le> 1 \<and>
   (length (filter isRegenerate (newEffects s' (tick_settle pc' env' answer s'))) = 1 \<longrightarrow>
      (\<exists>resp. answer = Inr resp \<and> qs_success resp \<and>
         (\<exists>e\<in>set (qs_queue resp). qe_status e = Q_completed)))"
    by (simp add: regenerations_tick_settle split: sum.splits)
  from whole part show ?thesis by simp
qed

text \<open>Two jobs completing in the same tick: one regeneration request, for the whole
  tick and for its part after the answer.\<close>

theorem C2_two_jobs_complete_in_one_tick:
  "length (filter isRegenerate
     (newEffects twoQueued
        (pollTick (server (accepted ''q3'') (Ok_json bothCompleted)) twoQueued))) = 1 \<and>
   (\<exists>pc resp. pollInterval twoQueued = Some pc \<and>
      postJson (fetchStatus (server (accepted ''q3'') (Ok_json bothCompleted))
                 (statusRequest pc twoQueued)) = Inr resp \<and>
      qs_success resp \<and> (\<exists>e\<in>set (qs_queue resp). qe_status e = Q_completed)) \<and>
   length (filter isRegenerate
     (newEffects twoQueued (tick_settle guestClosure (server (accepted ''q3'') (Ok_json bothCompleted))
          (Inr bothCompleted) twoQueued))) = 1 \<and>
   (\<exists>resp. (Inr bothCompleted :: string + QueueStatusResponse) = Inr resp \<and> qs_success resp \<and>
      (\<exists>e\<in>set (qs_queue resp). qe_status e = Q_completed))"
proof -
  have whole: "length (filter isRegenerate
     (newEffects twoQueued
        (pollTick (server (accepted ''q3'') (Ok_json bothCompleted)) twoQueued))) = 1"
    by (simp add: regenerations_tick_body pollTick_def twoQueued_state statusRequest_def
          bothCompleted_def fixture_defs)
  have part: "length (filter isRegenerate
     (newEffects twoQueued (tick_settle guestClosure (server (accepted ''q3'') (Ok_json bothCompleted))
          (Inr bothCompleted) twoQueued))) = 1"
    by (simp add: regenerations_tick_settle bothCompleted_def)
  from C2_regenerate_at_most_once_per_tick
         [of twoQueued "server (accepted ''q3'') (Ok_json bothCompleted)"
             twoQueued guestClosure "server (accepted ''q3'') (Ok_json bothCompleted)"
             "Inr bothCompleted"]
       whole part
  show ?thesis by blast
qed

subsection \<open>Gates\<close>

lemma rejectSubmission_evicts:
  "sc_optimisticId c \<notin> msg_id ` set (messages (rejectSubmission env c s)) \<and>
   sc_optimisticId c \<notin> clientId ` set (pendingQueueJobs (rejectSubmission env c s))"
  by (auto simp: rejectSubmission_def)

lemma rejected_settle:
  assumes "gateFails env c"
  shows "\<exists>ts. submit_settle env c s =
           (rejectSubmission env c (s\<lparr>effects := effects s @ ts\<rparr>))\<lparr>isSubmitting := False\<rparr> \<and>
           filter isPostEnqueue ts = []"
proof (cases "checkLimitsAndNotify env (sc_uid c)")
  case False
  then have "submit_settle env c s = (rejectSubmission env c (s\<lparr>effects := effects s @ []\<rparr>))\<lparr>isSubmitting := False\<rparr>"
    by (simp add: submit_settle_def)
  then show ?thesis by (intro exI[of _ "[]"]) simp
next
  case True
  show ?thesis
  proof (cases "ensureChatExists env (sc_uid c) (sc_input c)")
    case None
    with True have "submit_settle env c s = (rejectSubmission env c (s\<lparr>effects := effects s @ []\<rparr>))\<lparr>isSubmitting := False\<rparr>"
      by (simp add: submit_settle_def)
    then show ?thesis by (intro exI[of _ "[]"]) simp
  next
    case (Some chat)
    show ?thesis
    proof (cases "chat = []")
      case True
      with \<open>checkLimitsAndNotify env (sc_uid c)\<close> Some
      have "submit_settle env c s = (rejectSubmission env c (s\<lparr>effects := effects s @ []\<rparr>))\<lparr>isSubmitting := False\<rparr>"
        by (simp add: submit_settle_def)
      then show ?thesis by (intro exI[of _ "[]"]) simp
    next
      case False
      show ?thesis
      proof (cases "length (sc_input c) > MESSAGE_MAX_LENGTH env")
        case True
        with \<open>checkLimitsAndNotify env (sc_uid c)\<close> Some False
        have "submit_settle env c s =
                (rejectSubmission env c
                   (s\<lparr>effects := effects s @ [Toast (tooLongTitle env) None Toast_error]\<rparr>))
                \<lparr>isSubmitting := False\<rparr>"
          by (simp add: submit_settle_def)
        then show ?thesis
          by (intro exI[of _ "[Toast (tooLongTitle env) None Toast_error]"]) simp
      next
        case short: False
        with assms \<open>checkLimitsAndNotify env (sc_uid c)\<close> Some False
        have up: "sc_files c \<noteq> []" "handleFileUploads env (sc_uid c) chat = None"
          by (simp_all add: gateFails_def)
        with \<open>checkLimitsAndNotify env (sc_uid c)\<close> Some False short
        have "submit_settle env c s = (rejectSubmission env c (s\<lparr>effects := effects s @ []\<rparr>))\<lparr>isSubmitting := False\<rparr>"
          by (simp add: submit_settle_def)
        then show ?thesis by (intro exI[of _ "[]"]) simp
      qed
    qed
  qed
qed

text \<open>
  Claim C3. When a gate of a submission fails (rate limit, chat bootstrap, message
  length, or upload when there are files), the optimistic message and the table entry
  of that submission's client id are gone after the submission settles, whatever
  happened in between, and neither part of the submission has sent a request to the
  enqueue endpoint.
\<close>

theorem C3_failed_gate_evicts_without_enqueue:
  assumes "gateFails env c"
  shows "sc_optimisticId c \<notin> msg_id ` set (messages (submit_settle env c s)) \<and>
         sc_optimisticId c \<notin> clientId ` set (pendingQueueJobs (submit_settle env c s)) \<and>
         filter isPostEnqueue (newEffects s (submit_settle env c s)) = [] \<and>
         filter isPostEnqueue (newEffects s' (submit_begin env c s')) = []"
proof -
  have "effects (submit_begin env c s') = effects s' @ [SetFiles []]"
    by (rule effects_submit_begin)
  then have "newEffects s' (submit_begin env c s') = [SetFiles []]"
    by (rule newEffects_extend)
  then have quiet: "filter isPostEnqueue (newEffects s' (submit_begin env c s')) = []"
    by simp
  from rejected_settle [OF assms, of s] obtain ts where
    eq: "submit_settle env c s =
           (rejectSubmission env c (s\<lparr>effects := effects s @ ts\<rparr>))\<lparr>isSubmitting := False\<rparr>"
    and ts: "filter isPostEnqueue ts = []"
    by blast
  have "effects (submit_settle env c s) =
          effects s @ (ts @ [CleanupOptimisticAttachments (map oa_url (optimisticAttachmentsOf env c))])"
    by (simp add: eq effects_rejectSubmission)
  then have "newEffects s (submit_settle env c s) =
          ts @ [CleanupOptimisticAttachments (map oa_url (optimisticAttachmentsOf env c))]"
    by (rule newEffects_extend)
  with ts have "filter isPostEnqueue (newEffects s (submit_settle env c s)) = []"
    by simp
  moreover have "sc_optimisticId c \<notin> msg_id ` set (messages (submit_settle env c s))"
    using rejectSubmission_evicts [of c env "s\<lparr>effects := effects s @ ts\<rparr>"] by (simp add: eq)
  moreover have "sc_optimisticId c \<notin> clientId ` set (pendingQueueJobs (submit_settle env c s))"
    using rejectSubmission_evicts [of c env "s\<lparr>effects := effects s @ ts\<rparr>"] by (simp add: eq)
  ultimately show ?thesis using quiet by simp
qed

text \<open>"Hello" against a ceiling of four characters.\<close>

theorem C3_too_long_prompt:
  "gateFails terse (hello ''optimistic-1'') \<and>
   ''optimistic-1'' \<notin> msg_id ` set (messages
      (submit_settle terse (hello ''optimistic-1'')
         (submit_begin terse (hello ''optimistic-1'') (initial None [] ''Hello'')))) \<and>
   ''optimistic-1'' \<notin> clientId ` set (pendingQueueJobs
      (submit_settle terse (hello ''optimistic-1'')
         (submit_begin terse (hello ''optimistic-1'') (initial None [] ''Hello'')))) \<and>
   filter isPostEnqueue
     (newEffects (submit_begin terse (hello ''optimistic-1'') (initial None [] ''Hello''))
        (submit_settle terse (hello ''optimistic-1'')
           (submit_begin terse (hello ''optimistic-1'') (initial None [] ''Hello'')))) = []"
proof -
  have fails: "gateFails terse (hello ''optimistic-1'')"
    by (simp add: gateFails_def terse_def fixture_defs)
  have oid: "sc_optimisticId (hello ''optimistic-1'') = ''optimistic-1''"
    by (simp add: hello_def)
  from C3_failed_gate_evicts_without_enqueue
         [OF fails, of "submit_begin terse (hello ''optimistic-1'') (initial None [] ''Hello'')"]
       fails
  show ?thesis unfolding oid by blast
qed

subsection \<open>User ids on the wire\<close>

text \<open>
  Claim C10. The cancel request carries \<open>user?.id\<close>, the id of the profile, which is
  absent for a guest (no profile); every enqueue request carries the user id resolved by
  \<open>getOrCreateGuestUserId\<close> at the start of the submission, which is not empty, and every
  status request carries the user id of the submission that armed the timer.
\<close>

theorem C10_cancel_sends_profile_id:
  "newEffects s (cancel_begin p qid s) = [PostCancel (cancelRequest p qid)] \<and>
   cn_userId (cancelRequest p qid) = map_option profile_id (user p) \<and>
   (user p = None \<longrightarrow> cn_userId (cancelRequest p qid) = None) \<and>
   (\<forall>r. PostEnqueue r \<in> set (newEffects s (submit env p now s)) \<longrightarrow>
        getOrCreateGuestUserId env (user p) = Some (enq_userId r) \<and> enq_userId r \<noteq> []) \<and>
   (\<forall>r. PostEnqueue r \<in> set (newEffects s (submit_settle env c s)) \<longrightarrow> enq_userId r = sc_uid c) \<and>
   (\<forall>pc. pollInterval s = None \<and> pollInterval (submit_settle env c s) = Some pc \<longrightarrow>
        pc_uid pc = sc_uid c) \<and>
   (\<forall>pc r. pollInterval s = Some pc \<and> PostStatus r \<in> set (newEffects s (pollTick env s)) \<longrightarrow>
        st_userId r = pc_uid pc)"
proof -
  have cancel: "newEffects s (cancel_begin p qid s) = [PostCancel (cancelRequest p qid)]"
    by (simp add: cancel_begin_def newEffects_def)
  have raw: "cn_userId (cancelRequest p qid) = map_option profile_id (user p)"
    by (simp add: cancelRequest_def split: option.splits)
  have whole: "getOrCreateGuestUserId env (user p) = Some (enq_userId r) \<and> enq_userId r \<noteq> []"
    if "PostEnqueue r \<in> set (newEffects s (submit env p now s))" for r
    using that by (rule enqueue_of_submit)
  have settle: "enq_userId r = sc_uid c"
    if "PostEnqueue r \<in> set (newEffects s (submit_settle env c s))" for r
  proof -
    from effects_submit_settle [of env c s] obtain ex where
      ex: "effects (submit_settle env c s) = effects s @ ex"
      and req: "\<forall>r. PostEnqueue r \<in> set ex \<longrightarrow> (\<exists>chat atts. r = enqueueRequest env c chat atts)"
      by blast
    from ex have "newEffects s (submit_settle env c s) = ex" by (rule newEffects_extend)
    with that req obtain chat atts where "r = enqueueRequest env c chat atts" by auto
    then show ?thesis by (simp add: enqueueRequest_def)
  qed
  have armed: "pc_uid pc = sc_uid c"
    if "pollInterval s = None \<and> pollInterval (submit_settle env c s) = Some pc" for pc
    using that pollInterval_submit_settle [of env c s] by (auto simp: pollClosure_def)
  have poll: "st_userId r = pc_uid pc"
    if "pollInterval s = Some pc \<and> PostStatus r \<in> set (newEffects s (pollTick env s))" for pc r
  proof -
    from effects_tick_body [of pc env s] obtain ex where
      ex: "effects (tick_body pc env s) = effects s @ ex"
      and req: "\<forall>r. PostStatus r \<in> set ex \<longrightarrow> r = statusRequest pc s"
      by blast
    from ex have "newEffects s (tick_body pc env s) = ex" by (rule newEffects_extend)
    with that req have "r = statusRequest pc s" by (auto simp: pollTick_def)
    then show ?thesis by (simp add: statusRequest_def)
  qed
  from cancel raw whole settle armed poll show ?thesis by simp
qed

text \<open>The whole of \<open>submit\<close> for the guest's first prompt gives the session
  \<open>oneQueued\<close>.\<close>

lemma decimal_1: "decimal (Suc 0) = ''1''"
  by (subst decimal.simps) simp

lemma guest_submit:
  "submit (server (accepted ''q1'') (reports [])) guest 1 (initial (Some ''chat-1'') [] ''Hello'') =
     oneQueued"
  by (simp add: submit_def decimal_1 oneQueued_value handler_defs fixture_defs Let_def)

text \<open>A guest session: the enqueue and status requests name \<open>guest-1\<close>, the id that
  \<open>getOrCreateGuestUserId\<close> resolved; the cancel request names nobody.\<close>

theorem C10_guest_cancel_has_no_user_id:
  "user guest = None \<and>
   newEffects oneQueued (cancel_begin guest ''q1'' oneQueued) =
     [PostCancel \<lparr>cn_queueId = ''q1'', cn_userId = None, cn_isAuthenticated = False\<rparr>] \<and>
   PostEnqueue (enqueueRequest (server (accepted ''q1'') (reports [])) (hello ''optimistic-1'')
                  ''chat-1'' [])
     \<in> set (newEffects (initial (Some ''chat-1'') [] ''Hello'')
              (submit (server (accepted ''q1'') (reports [])) guest 1
                 (initial (Some ''chat-1'') [] ''Hello''))) \<and>
   getOrCreateGuestUserId (server (accepted ''q1'') (reports [])) (user guest) =
     Some (enq_userId (enqueueRequest (server (accepted ''q1'') (reports []))
                         (hello ''optimistic-1'') ''chat-1'' [])) \<and>
   PostEnqueue (enqueueRequest (server (accepted ''q1'') (reports [])) (hello ''optimistic-1'')
                  ''chat-1'' [])
     \<in> set (newEffects helloSent
              (submit_settle (server (accepted ''q1'') (reports [])) (hello ''optimistic-1'')
                 helloSent)) \<and>
   enq_userId (enqueueRequest (server (accepted ''q1'') (reports []))
                 (hello ''optimistic-1'') ''chat-1'' []) = ''guest-1'' \<and>
   pollInterval helloSent = None \<and>
   pollInterval (submit_settle (server (accepted ''q1'') (reports [])) (hello ''optimistic-1'')
                   helloSent) = Some guestClosure \<and>
   PostStatus \<lparr>st_userId = ''guest-1'', st_isAuthenticated = False, st_queueIds = [''q1'']\<rparr>
     \<in> set (newEffects oneQueued (pollTick statusDown oneQueued)) \<and>
   pc_uid guestClosure = ''guest-1''"
proof -
  let ?srv = "server (accepted ''q1'') (reports [])"
  let ?start = "initial (Some ''chat-1'') [] ''Hello''"
  let ?r = "enqueueRequest ?srv (hello ''optimistic-1'') ''chat-1'' []"
  let ?q = "\<lparr>st_userId = ''guest-1'', st_isAuthenticated = False, st_queueIds = [''q1'']\<rparr>"
  have nobody: "user guest = None" by (simp add: guest_def)
  have sent: "PostEnqueue ?r \<in> set (newEffects ?start (submit ?srv guest 1 ?start))"
    unfolding guest_submit
    by (simp add: oneQueued_value newEffects_def initial_def enqueueRequest_def
          isAuthenticated_def systemPrompt_def fixture_defs)
  have settled: "PostEnqueue ?r \<in>
      set (newEffects helloSent (submit_settle ?srv (hello ''optimistic-1'') helloSent))"
    by (simp add: helloSent_def refusing_def handler_defs fixture_defs Let_def)
  have arming: "pollInterval (submit_settle ?srv (hello ''optimistic-1'') helloSent) =
      Some guestClosure"
    by (simp add: helloSent_def refusing_def guestClosure_def handler_defs fixture_defs Let_def)
  have armed: "pollInterval oneQueued = Some guestClosure"
    by (simp add: oneQueued_value guestClosure_def)
  have asked: "PostStatus ?q \<in> set (newEffects oneQueued (pollTick statusDown oneQueued))"
    by (simp add: oneQueued_value statusDown_def handler_defs fixture_defs Let_def)
  from C10_cancel_sends_profile_id [of oneQueued guest "''q1''"] nobody
  have cancel: "newEffects oneQueued (cancel_begin guest ''q1'' oneQueued) =
          [PostCancel (cancelRequest guest ''q1'')]"
    and raw: "cn_userId (cancelRequest guest ''q1'') = None"
    by simp_all
  from C10_cancel_sends_profile_id [of ?start guest _ ?srv 1] sent
  have uid: "getOrCreateGuestUserId ?srv (user guest) = Some (enq_userId ?r)"
    by blast
  from C10_cancel_sends_profile_id [of helloSent _ _ ?srv _ "hello ''optimistic-1''"]
       settled helloSent_state(1) arming
  have same: "enq_userId ?r = sc_uid (hello ''optimistic-1'')"
    and closure: "pc_uid guestClosure = sc_uid (hello ''optimistic-1'')"
    by blast+
  from C10_cancel_sends_profile_id [of oneQueued _ _ statusDown] armed asked
  have polled: "st_userId ?q = pc_uid guestClosure"
    by blast
  have shape: "cancelRequest guest ''q1'' =
      \<lparr>cn_queueId = ''q1'', cn_userId = None, cn_isAuthenticated = False\<rparr>"
    using raw by (simp add: cancelRequest_def guest_def isAuthenticated_def)
  have name: "sc_uid (hello ''optimistic-1'') = ''guest-1''"
    by (simp add: hello_def)
  from nobody cancel shape sent uid settled same name helloSent_state(1) arming asked closure
  show ?thesis by simp
qed

subsection \<open>Chat switch\<close>

text \<open>
  Claim C9, as amended. The render in which the chat id changes (with the effect on the
  table length after it) leaves the poll timer, the failure counter and the correlation
  table as they are and makes no call, so no cancel request; it empties the transcript
  when the chat id goes from a chat to none.
\<close>

theorem C9_chat_switch_keeps_timer_and_table:
  "pollInterval (step s (Render_chatId chatId)) = pollInterval s \<and>
   pollFailureCount (step s (Render_chatId chatId)) = pollFailureCount s \<and>
   pendingQueueJobs (step s (Render_chatId chatId)) = pendingQueueJobs s \<and>
   effects (step s (Render_chatId chatId)) = effects s \<and>
   messages (step s (Render_chatId chatId)) =
     (if prevChatId s \<noteq> None \<and> chatId = None then [] else messages s)"
  by (simp add: step_def afterRender_def renderChatId_def Let_def)

theorem C9_switch_from_chat_empties_transcript:
  "prevChatId queuedAfterGreeting = Some ''chat-1'' \<and>
   messages (step queuedAfterGreeting (Render_chatId None)) = [] \<and>
   effects (step queuedAfterGreeting (Render_chatId None)) = effects queuedAfterGreeting \<and>
   pollFailureCount (step queuedAfterGreeting (Render_chatId None)) =
     pollFailureCount queuedAfterGreeting"
proof -
  have prev: "prevChatId queuedAfterGreeting = Some ''chat-1''"
    by (simp add: queuedAfterGreeting_def greeting_def handler_defs fixture_defs Let_def)
  from C9_chat_switch_keeps_timer_and_table [of queuedAfterGreeting None] prev
  show ?thesis by simp
qed

text \<open>
  Against claim C9 as stated. A prompt is queued as \<open>q1\<close> in a chat, then the chat id
  becomes none: the transcript is emptied, the timer stays armed and the table still
  holds the job.
\<close>

theorem C9_timer_and_table_survive_chat_switch:
  "messages queuedAfterGreeting = [greeting] \<and>
   messages (step queuedAfterGreeting (Render_chatId None)) = [] \<and>
   pollInterval (step queuedAfterGreeting (Render_chatId None)) =
     Some \<lparr>pc_uid = ''guest-1'', pc_chatId = ''chat-1'', pc_model = ''gpt'',
           pc_isAuthenticated = False,
           pc_systemPrompt = ''You are a helpful assistant.''\<rparr> \<and>
   map queueId (pendingQueueJobs (step queuedAfterGreeting (Render_chatId None))) = [Some ''q1'']"
  by (simp add: queuedAfterGreeting_def greeting_def handler_defs fixture_defs Let_def)

subsection \<open>A refused enqueue\<close>

lemma refused_enqueue:
  assumes "fetchEnqueue env (enqueueRequest env c chat atts) = Ok_json resp" "\<not> enq_success resp"
  shows "enqueue env c chat atts s =
           submitFailed env c (js_or (enq_error resp) ''Failed to enqueue prompt'')
             (s\<lparr>effects := effects s @ [PostEnqueue (enqueueRequest env c chat atts)]\<rparr>)"
  using assms by (simp add: enqueue_def Let_def split: option.splits)

lemma submitFailed_evicts:
  "sc_optimisticId c \<notin> msg_id ` set (messages (submitFailed env c msg s)) \<and>
   sc_optimisticId c \<notin> clientId ` set (pendingQueueJobs (submitFailed env c msg s))"
  by (auto simp: submitFailed_def)

text \<open>
  Claim C8, as amended. When the enqueue endpoint answers a submission's request with
  \<open>success = false\<close>, the optimistic message and the table entry of that submission are
  removed, the submission leaves the poll timer as it was, and the only notification is
  the fixed "Failed to queue message"; the server's error string (or the fallback
  "Failed to enqueue prompt") is the message of the thrown error, which goes to the
  console only.
\<close>

theorem C8_refused_enqueue_generic_notification:
  assumes "PostEnqueue r \<in> set (newEffects s (submit_settle env c s))"
      and "fetchEnqueue env r = Ok_json resp" "\<not> enq_success resp"
  shows "sc_optimisticId c \<notin> msg_id ` set (messages (submit_settle env c s)) \<and>
         sc_optimisticId c \<notin> clientId ` set (pendingQueueJobs (submit_settle env c s)) \<and>
         pollInterval (submit_settle env c s) = pollInterval s \<and>
         newEffects s (submit_settle env c s) =
           [PostEnqueue r,
            ConsoleError ''Failed to process queued submit''
              (js_or (enq_error resp) ''Failed to enqueue prompt''),
            CleanupOptimisticAttachments (filePartUrls (msg_parts (optimisticMessage env c))),
            Toast ''Failed to queue message'' None Toast_error]"
proof -
  from submit_settle_cases [of env c s]
  obtain chat atts where
    eq: "submit_settle env c s = (enqueue env c chat atts s)\<lparr>isSubmitting := False\<rparr>"
  proof (elim disjE exE conjE)
    fix ts
    assume rej: "submit_settle env c s =
      (rejectSubmission env c (s\<lparr>effects := effects s @ ts\<rparr>))\<lparr>isSubmitting := False\<rparr>"
      and quiet: "filter isNetwork ts = []"
    have "effects (submit_settle env c s) = effects s @ (ts @
       [CleanupOptimisticAttachments (map oa_url (optimisticAttachmentsOf env c))])"
      by (simp add: rej effects_rejectSubmission)
    then have "newEffects s (submit_settle env c s) = ts @
       [CleanupOptimisticAttachments (map oa_url (optimisticAttachmentsOf env c))]"
      by (rule newEffects_extend)
    with assms(1) have "PostEnqueue r \<in> set ts" by simp
    with quiet have False by (force simp: filter_empty_conv)
    then show ?thesis ..
  qed blast
  from effects_enqueue [of env c chat atts s] obtain ex where
    ex: "effects (enqueue env c chat atts s) =
           effects s @ PostEnqueue (enqueueRequest env c chat atts) # ex"
    and quiet: "filter isNetwork ex = []" by blast
  have "effects (submit_settle env c s) =
          effects s @ (PostEnqueue (enqueueRequest env c chat atts) # ex)"
    by (simp add: eq ex)
  then have "newEffects s (submit_settle env c s) = PostEnqueue (enqueueRequest env c chat atts) # ex"
    by (rule newEffects_extend)
  with assms(1) quiet have r: "r = enqueueRequest env c chat atts"
    by (force simp: filter_empty_conv)
  from assms(2,3) have failed: "enqueue env c chat atts s =
           submitFailed env c (js_or (enq_error resp) ''Failed to enqueue prompt'')
             (s\<lparr>effects := effects s @ [PostEnqueue (enqueueRequest env c chat atts)]\<rparr>)"
    unfolding r by (rule refused_enqueue)
  have "effects (submit_settle env c s) = effects s @
           [PostEnqueue r,
            ConsoleError ''Failed to process queued submit''
              (js_or (enq_error resp) ''Failed to enqueue prompt''),
            CleanupOptimisticAttachments (filePartUrls (msg_parts (optimisticMessage env c))),
            Toast ''Failed to queue message'' None Toast_error]"
    by (simp add: eq failed effects_submitFailed r)
  then have log: "newEffects s (submit_settle env c s) =
           [PostEnqueue r,
            ConsoleError ''Failed to process queued submit''
              (js_or (enq_error resp) ''Failed to enqueue prompt''),
            CleanupOptimisticAttachments (filePartUrls (msg_parts (optimisticMessage env c))),
            Toast ''Failed to queue message'' None Toast_error]"
    by (rule newEffects_extend)
  have "sc_optimisticId c \<notin> msg_id ` set (messages (submit_settle env c s))"
    using submitFailed_evicts [of c env] by (simp add: eq failed)
  moreover have "sc_optimisticId c \<notin> clientId ` set (pendingQueueJobs (submit_settle env c s))"
    using submitFailed_evicts [of c env] by (simp add: eq failed)
  moreover have "pollInterval (submit_settle env c s) = pollInterval s"
    by (simp add: eq failed)
  ultimately show ?thesis using log by simp
qed

text \<open>The answer \<open>{success: false, error: "rate limited"}\<close> to the prompt "Hello".\<close>

theorem C8_rate_limited_prompt:
  "messages (submit_settle refusing (hello ''optimistic-1'') helloSent) = [] \<and>
   pendingQueueJobs (submit_settle refusing (hello ''optimistic-1'') helloSent) = [] \<and>
   pollInterval (submit_settle refusing (hello ''optimistic-1'') helloSent) = None \<and>
   newEffects helloSent (submit_settle refusing (hello ''optimistic-1'') helloSent) =
     [PostEnqueue (enqueueRequest refusing (hello ''optimistic-1'') ''chat-1'' []),
      ConsoleError ''Failed to process queued submit'' ''rate limited'',
      CleanupOptimisticAttachments [],
      Toast ''Failed to queue message'' None Toast_error]"
proof -
  let ?r = "enqueueRequest refusing (hello ''optimistic-1'') ''chat-1'' []"
  let ?resp = "\<lparr>enq_success = False, enq_queue = None, enq_error = Some ''rate limited''\<rparr>"
  have sent: "PostEnqueue ?r \<in>
      set (newEffects helloSent (submit_settle refusing (hello ''optimistic-1'') helloSent))"
    by (simp add: helloSent_def refusing_def handler_defs fixture_defs Let_def)
  have answer: "fetchEnqueue refusing ?r = Ok_json ?resp"
    by (simp add: refusing_def fixture_defs)
  have refused: "\<not> enq_success ?resp" by simp
  from C8_refused_enqueue_generic_notification [OF sent answer refused]
  have log: "newEffects helloSent (submit_settle refusing (hello ''optimistic-1'') helloSent) =
     [PostEnqueue ?r,
      ConsoleError ''Failed to process queued submit''
        (js_or (enq_error ?resp) ''Failed to enqueue prompt''),
      CleanupOptimisticAttachments
        (filePartUrls (msg_parts (optimisticMessage refusing (hello ''optimistic-1'')))),
      Toast ''Failed to queue message'' None Toast_error]"
    and timer: "pollInterval (submit_settle refusing (hello ''optimistic-1'') helloSent) =
                  pollInterval helloSent"
    by blast+
  have rest: "messages (submit_settle refusing (hello ''optimistic-1'') helloSent) = []"
    "pendingQueueJobs (submit_settle refusing (hello ''optimistic-1'') helloSent) = []"
    "pollInterval helloSent = None"
    "filePartUrls (msg_parts (optimisticMessage refusing (hello ''optimistic-1''))) = []"
    by (simp_all add: helloSent_def refusing_def handler_defs fixture_defs Let_def)
  from log timer rest show ?thesis by simp
qed

text \<open>
  Against claim C8 as stated. In that session the user is shown "Failed to queue
  message"; "rate limited" reaches the console and no notification.
\<close>

theorem C8_user_does_not_see_server_message:
  "fetchEnqueue refusing
     (enqueueRequest refusing (hello ''optimistic-1'') ''chat-1'' []) =
     Ok_json \<lparr>enq_success = False, enq_queue = None, enq_error = Some ''rate limited''\<rparr> \<and>
   filter isToast
     (effects (run (initial (Some ''chat-1'') [] ''Hello'')
                 [Submit_begin refusing (hello ''optimistic-1''),
                  Submit_settle refusing (hello ''optimistic-1'')])) =
     [Toast ''Failed to queue message'' None Toast_error] \<and>
   ConsoleError ''Failed to process queued submit'' ''rate limited'' \<in>
     set (effects (run (initial (Some ''chat-1'') [] ''Hello'')
                     [Submit_begin refusing (hello ''optimistic-1''),
                      Submit_settle refusing (hello ''optimistic-1'')]))"
  by (simp add: refusing_def handler_defs fixture_defs Let_def)

subsection \<open>The poll timer and the failure counter\<close>

lemma failing_tick:
  assumes "tickFails pc env s"
  shows "\<exists>msg. tick_body pc env s =
           tick_catch msg (s\<lparr>effects := effects s @ [PostStatus (statusRequest pc s)]\<rparr>)"
proof -
  from assms have "pendingQueueJobs s \<noteq> []" by (auto simp: tickFails_def)
  with assms show ?thesis
    by (auto simp: tickFails_def tick_body_def tick_settle_def Let_def split: sum.splits)
qed

lemma answered_tick:
  assumes "\<not> tickFails pc env s" "queueIdsOf (pendingQueueJobs s) \<noteq> []"
  shows "\<exists>resp. tick_body pc env s =
           reconcile pc env resp (s\<lparr>effects := effects s @ [PostStatus (statusRequest pc s)]\<rparr>)"
proof -
  from assms have "pendingQueueJobs s \<noteq> []" by auto
  with assms show ?thesis
    by (auto simp: tickFails_def tick_body_def tick_settle_def Let_def split: sum.splits)
qed

lemma timer_reconcile [simp]:
  "pollInterval (reconcile pc env resp s) = pollInterval s"
  "pollFailureCount (reconcile pc env resp s) = pollFailureCount s"
  by (simp_all add: reconcile_def Let_def)

lemma timer_tick_catch:
  "pollInterval (tick_catch msg s) =
     (if MAX_QUEUE_POLL_FAILURES \<le> Suc (pollFailureCount s) then None else pollInterval s)"
  "pollFailureCount (tick_catch msg s) =
     (if MAX_QUEUE_POLL_FAILURES \<le> Suc (pollFailureCount s) then 0 else Suc (pollFailureCount s))"
  "pendingQueueJobs (tick_catch msg s) = pendingQueueJobs s"
  by (simp_all add: tick_catch_def clearPolling_def Let_def)

lemma count_tick_body:
  "pollFailureCount (tick_body pc env s) =
     (if pendingQueueJobs s = [] then 0
      else if tickFails pc env s
      then (if MAX_QUEUE_POLL_FAILURES \<le> Suc (pollFailureCount s) then 0
            else Suc (pollFailureCount s))
      else pollFailureCount s)"
proof (cases "pendingQueueJobs s = []")
  case True
  then show ?thesis by (simp add: tick_body_def tick_settle_def clearPolling_def)
next
  case jobs: False
  show ?thesis
  proof (cases "tickFails pc env s")
    case True
    from failing_tick [OF True] obtain msg where
      "tick_body pc env s =
         tick_catch msg (s\<lparr>effects := effects s @ [PostStatus (statusRequest pc s)]\<rparr>)" ..
    with jobs True show ?thesis by (simp add: timer_tick_catch)
  next
    case False
    show ?thesis
    proof (cases "queueIdsOf (pendingQueueJobs s) = []")
      case True
      with jobs False show ?thesis by (simp add: tick_body_def tick_settle_def)
    next
      case ids: False
      from answered_tick [OF False ids] obtain resp where
        "tick_body pc env s =
           reconcile pc env resp (s\<lparr>effects := effects s @ [PostStatus (statusRequest pc s)]\<rparr>)" ..
      with jobs False show ?thesis by simp
    qed
  qed
qed

lemma timer_tick_body:
  "pollInterval (tick_body pc env s) =
     (if pendingQueueJobs s = [] \<or>
         (tickFails pc env s \<and> MAX_QUEUE_POLL_FAILURES \<le> Suc (pollFailureCount s))
      then None else pollInterval s)"
proof (cases "pendingQueueJobs s = []")
  case True
  then show ?thesis by (simp add: tick_body_def tick_settle_def clearPolling_def)
next
  case jobs: False
  show ?thesis
  proof (cases "tickFails pc env s")
    case True
    from failing_tick [OF True] obtain msg where
      "tick_body pc env s =
         tick_catch msg (s\<lparr>effects := effects s @ [PostStatus (statusRequest pc s)]\<rparr>)" ..
    with jobs True show ?thesis by (simp add: timer_tick_catch)
  next
    case False
    show ?thesis
    proof (cases "queueIdsOf (pendingQueueJobs s) = []")
      case True
      with jobs False show ?thesis by (simp add: tick_body_def tick_settle_def)
    next
      case ids: False
      from answered_tick [OF False ids] obtain resp where
        "tick_body pc env s =
           reconcile pc env resp (s\<lparr>effects := effects s @ [PostStatus (statusRequest pc s)]\<rparr>)" ..
      with jobs False show ?thesis by simp
    qed
  qed
qed

lemma step_same_length:
  "length (pendingQueueJobs (fire e s)) = length (pendingQueueJobs s) \<Longrightarrow> step s e = fire e s"
  by (simp add: step_def afterRender_def)

lemma statusDown_fails:
  "tickFails pc statusDown s \<longleftrightarrow> queueIdsOf (pendingQueueJobs s) \<noteq> []"
  by (simp add: tickFails_def statusDown_def fixture_defs)

lemma statusDown_step:
  assumes "pollInterval s = Some pc" "queueIdsOf (pendingQueueJobs s) \<noteq> []"
  shows "pollInterval (step s (Poll_tick statusDown)) =
           (if MAX_QUEUE_POLL_FAILURES \<le> Suc (pollFailureCount s) then None else Some pc)"
    and "pollFailureCount (step s (Poll_tick statusDown)) =
           (if MAX_QUEUE_POLL_FAILURES \<le> Suc (pollFailureCount s) then 0
            else Suc (pollFailureCount s))"
    and "pendingQueueJobs (step s (Poll_tick statusDown)) = pendingQueueJobs s"
proof -
  from assms(2) have ko: "tickFails pc statusDown s" by (simp add: statusDown_fails)
  from failing_tick [OF ko] obtain msg where
    tick: "tick_body pc statusDown s =
         tick_catch msg (s\<lparr>effects := effects s @ [PostStatus (statusRequest pc s)]\<rparr>)" ..
  with assms(1) have fire: "fire (Poll_tick statusDown) s =
         tick_catch msg (s\<lparr>effects := effects s @ [PostStatus (statusRequest pc s)]\<rparr>)"
    by (simp add: pollTick_def)
  then have "length (pendingQueueJobs (fire (Poll_tick statusDown) s)) = length (pendingQueueJobs s)"
    by (simp add: timer_tick_catch)
  then have step: "step s (Poll_tick statusDown) =
         tick_catch msg (s\<lparr>effects := effects s @ [PostStatus (statusRequest pc s)]\<rparr>)"
    using fire by (simp add: step_same_length)
  show "pollInterval (step s (Poll_tick statusDown)) =
           (if MAX_QUEUE_POLL_FAILURES \<le> Suc (pollFailureCount s) then None else Some pc)"
    using assms(1) by (simp add: step timer_tick_catch)
  show "pollFailureCount (step s (Poll_tick statusDown)) =
           (if MAX_QUEUE_POLL_FAILURES \<le> Suc (pollFailureCount s) then 0
            else Suc (pollFailureCount s))"
    by (simp add: step timer_tick_catch)
  show "pendingQueueJobs (step s (Poll_tick statusDown)) = pendingQueueJobs s"
    by (simp add: step timer_tick_catch)
qed

lemma oneQueued_state:
  "pollInterval oneQueued = Some guestClosure"
  "pollFailureCount oneQueued = 0"
  "queueIdsOf (pendingQueueJobs oneQueued) = [''q1'']"
  by (simp_all add: oneQueued_value guestClosure_def)

lemma failedOnce_state:
  "pollInterval failedOnce = Some guestClosure"
  "pollFailureCount failedOnce = 1"
  "pendingQueueJobs failedOnce = pendingQueueJobs oneQueued"
  unfolding failedOnce_def
  by (simp_all add: statusDown_step [where pc = guestClosure] oneQueued_state
        MAX_QUEUE_POLL_FAILURES_def)

lemma failedTwice_state:
  "pollInterval failedTwice = Some guestClosure"
  "pollFailureCount failedTwice = 2"
  "pendingQueueJobs failedTwice = pendingQueueJobs oneQueued"
  unfolding failedTwice_def
  by (simp_all add: statusDown_step [where pc = guestClosure] failedOnce_state oneQueued_state
        MAX_QUEUE_POLL_FAILURES_def)

lemma failedThrice_state:
  "pollInterval failedThrice = Some guestClosure"
  "pollFailureCount failedThrice = 3"
  "pendingQueueJobs failedThrice = pendingQueueJobs oneQueued"
  unfolding failedThrice_def
  by (simp_all add: statusDown_step [where pc = guestClosure] failedTwice_state oneQueued_state
        MAX_QUEUE_POLL_FAILURES_def)

lemma failedFourTimes_state:
  "pollInterval failedFourTimes = Some guestClosure"
  "pollFailureCount failedFourTimes = 4"
  "pendingQueueJobs failedFourTimes = pendingQueueJobs oneQueued"
  unfolding failedFourTimes_def
  by (simp_all add: statusDown_step [where pc = guestClosure] failedThrice_state oneQueued_state
        MAX_QUEUE_POLL_FAILURES_def)

lemma paused_state:
  "pollInterval paused = None"
  "pollFailureCount paused = 0"
  "pendingQueueJobs paused = pendingQueueJobs oneQueued"
  unfolding paused_def
  by (simp_all add: statusDown_step [where pc = guestClosure] failedFourTimes_state oneQueued_state
        MAX_QUEUE_POLL_FAILURES_def)

lemma jobs_oneQueued:
  "pendingQueueJobs oneQueued =
     [\<lparr>clientId = ''optimistic-1'', queueId = Some ''q1'', status = Pending,
       content = ''Hello'', createdAt = 1, optimisticAttachments = []\<rparr>]"
  by (simp add: oneQueued_value)

lemma resumed_state:
  "pollInterval resumed = Some guestClosure"
  "pendingQueueJobs resumed =
     [\<lparr>clientId = ''optimistic-1'', queueId = Some ''q1'', status = Pending,
       content = ''Hello'', createdAt = 1, optimisticAttachments = []\<rparr>,
      \<lparr>clientId = ''optimistic-2'', queueId = Some ''q2'', status = Pending,
       content = ''Hello'', createdAt = 1, optimisticAttachments = []\<rparr>]"
  "filter isNetwork (newEffects paused resumed) =
     [PostEnqueue (enqueueRequest statusDown (hello ''optimistic-2'') ''chat-1'' [])]"
  by (simp_all add: resumed_def paused_state jobs_oneQueued guestClosure_def statusDown_def
        handler_defs fixture_defs Let_def)

lemma waiting_state:
  "pollInterval waiting = Some guestClosure"
  "map queueId (pendingQueueJobs waiting) = [None]"
  "pollFailureCount waiting = 0"
  by (simp_all add: waiting_def guestClosure_def statusDown_def oneQueued_value handler_defs
        fixture_defs Let_def)

text \<open>
  Claim C5, as amended. On a tick of the armed timer the failure counter goes up by one
  when the status request throws (transport error, status not ok, unparsable body) or
  its answer has \<open>success = false\<close>, except that the increment that reaches 5 is
  followed at once by the reset of \<open>clearPolling\<close>; a tick whose request is answered
  with success leaves the counter as it is; the counter goes back to zero only through
  \<open>clearPolling\<close> (here: the table found empty, or the ceiling reached).
\<close>

theorem C5_failure_counter:
  assumes "pollInterval s = Some pc"
  shows "pollFailureCount (pollTick env s) =
     (if pendingQueueJobs s = [] then 0
      else if tickFails pc env s
      then (if MAX_QUEUE_POLL_FAILURES \<le> Suc (pollFailureCount s) then 0
            else Suc (pollFailureCount s))
      else pollFailureCount s)"
  using assms by (simp add: pollTick_def count_tick_body)

text \<open>After one failed tick: an answered tick keeps the counter at 1, a failed one
  makes it 2.\<close>

theorem C5_counter_after_one_failure:
  "pollInterval failedOnce = Some guestClosure \<and>
   pollFailureCount failedOnce = 1 \<and>
   pollFailureCount (pollTick busy failedOnce) = 1 \<and>
   pollFailureCount (pollTick statusDown failedOnce) = 2"
proof -
  have jobs: "pendingQueueJobs failedOnce \<noteq> []"
    by (simp add: failedOnce_state jobs_oneQueued)
  have ok: "\<not> tickFails guestClosure busy failedOnce"
    by (simp add: tickFails_def busy_def fixture_defs)
  have ko: "tickFails guestClosure statusDown failedOnce"
    by (simp add: statusDown_fails failedOnce_state oneQueued_state)
  from C5_failure_counter [OF failedOnce_state(1), of busy]
       C5_failure_counter [OF failedOnce_state(1), of statusDown] jobs ok ko
  show ?thesis
    by (simp add: failedOnce_state MAX_QUEUE_POLL_FAILURES_def)
qed

text \<open>
  Against claim C5 as stated. After one failed tick the counter is 1; the next tick's
  request round-trips (\<open>q1\<close> is still processing) and the counter is still 1, not 0.
  And an answer that round-trips with \<open>success = false\<close> counts as a failure.
\<close>

theorem C5_success_does_not_reset_counter:
  "pollFailureCount failedOnce = 1 \<and>
   fetchStatus busy (statusRequest guestClosure failedOnce) = reports [(''q1'', Q_processing)] \<and>
   pollFailureCount (step failedOnce (Poll_tick busy)) = 1 \<and>
   pollFailureCount
     (step oneQueued
        (Poll_tick (server (accepted ''q2'')
           (Ok_json \<lparr>qs_success = False, qs_queue = [], qs_error = None\<rparr>)))) = 1"
  by (simp add: failedOnce_state jobs_oneQueued oneQueued_value busy_def guestClosure_def
        handler_defs fixture_defs Let_def)

text \<open>
  Claim C4, as amended. The timer becomes armed only in the block of \<open>submit\<close> that
  follows a successful enqueue (where the server id is attached), if it is not armed
  already; no other handler arms it. An armed timer is disarmed by a tick exactly when
  the whole table (entries with or without a server id) is empty at the start of the
  tick or the tick fails and brings the failure counter to 5, and by the effect on the
  table length exactly when the table is empty.
\<close>

theorem C4_timer_arming_and_disarming:
  "pollInterval (enqueued env c chat q s) =
     Some (case pollInterval s of None \<Rightarrow> pollClosure env c chat | Some pc \<Rightarrow> pc) \<and>
   pollInterval (rejectSubmission env c s) = pollInterval s \<and>
   pollInterval (submitFailed env c msg s) = pollInterval s \<and>
   pollInterval (submit_begin env c s) = pollInterval s \<and>
   pollInterval (cancel_begin p qid s) = pollInterval s \<and>
   pollInterval (cancel_settle answer s) = pollInterval s \<and>
   pollInterval (renderChatId chatId s) = pollInterval s \<and>
   pollInterval (pendingLengthEffect s) =
     (if pendingQueueJobs s = [] then None else pollInterval s) \<and>
   (pollInterval s = None \<longrightarrow> pollTick env' s = s) \<and>
   (pollInterval s = Some pc \<longrightarrow>
      pollInterval (pollTick env' s) =
        (if pendingQueueJobs s = [] \<or>
            (tickFails pc env' s \<and> MAX_QUEUE_POLL_FAILURES \<le> Suc (pollFailureCount s))
         then None else Some pc))"
proof -
  have "pollInterval (enqueued env c chat q s) =
     Some (case pollInterval s of None \<Rightarrow> pollClosure env c chat | Some pc \<Rightarrow> pc)"
    by (simp add: pollInterval_enqueued split: option.splits)
  moreover have "pollInterval (submit_begin env c s) = pollInterval s"
    by (simp add: submit_begin_def)
  moreover have "pollInterval (cancel_begin p qid s) = pollInterval s"
    by (simp add: cancel_begin_def)
  moreover have "pollInterval (cancel_settle answer s) = pollInterval s"
    by (simp add: cancel_settle_def split: sum.splits)
  moreover have "pollInterval (renderChatId chatId s) = pollInterval s"
    by (simp add: renderChatId_def Let_def)
  moreover have "pollInterval (pendingLengthEffect s) =
     (if pendingQueueJobs s = [] then None else pollInterval s)"
    by (simp add: pendingLengthEffect_def clearPolling_def)
  moreover have "pollInterval s = None \<longrightarrow> pollTick env' s = s"
    by (simp add: pollTick_def)
  moreover have "pollInterval s = Some pc \<longrightarrow>
      pollInterval (pollTick env' s) =
        (if pendingQueueJobs s = [] \<or>
            (tickFails pc env' s \<and> MAX_QUEUE_POLL_FAILURES \<le> Suc (pollFailureCount s))
         then None else Some pc)"
    by (simp add: pollTick_def timer_tick_body)
  ultimately show ?thesis by simp
qed

text \<open>The timer armed, the only table entry without a server id: a tick and the
  effect on the table length both leave the timer armed. And a tick of the disarmed
  timer does nothing.\<close>

theorem C4_armed_without_server_id:
  "pollInterval waiting = Some guestClosure \<and>
   queueIdsOf (pendingQueueJobs waiting) = [] \<and>
   pollInterval (pollTick busy waiting) = Some guestClosure \<and>
   pollInterval (pendingLengthEffect waiting) = Some guestClosure \<and>
   pollInterval paused = None \<and>
   pollTick busy paused = paused"
proof -
  have ids: "queueIdsOf (pendingQueueJobs waiting) = []"
    by (simp add: waiting_def guestClosure_def statusDown_def oneQueued_value handler_defs
        fixture_defs Let_def)
  have jobs: "pendingQueueJobs waiting \<noteq> []"
    using waiting_state(2) by auto
  have quiet: "\<not> tickFails guestClosure busy waiting"
    by (simp add: tickFails_def ids)
  from C4_timer_arming_and_disarming [of _ _ _ _ waiting _ _ _ _ _ busy guestClosure]
       waiting_state(1) jobs quiet
  have armed: "pollInterval (pollTick busy waiting) = Some guestClosure"
    and effect: "pollInterval (pendingLengthEffect waiting) = Some guestClosure"
    by simp_all
  from C4_timer_arming_and_disarming [of _ _ _ _ paused _ _ _ _ _ busy] paused_state(1)
  have still: "pollTick busy paused = paused"
    by simp
  from waiting_state(1) ids armed effect paused_state(1) still show ?thesis by simp
qed

text \<open>
  Against claim C4 as stated. The first prompt is queued as \<open>q1\<close>, a second prompt is
  sent and its enqueue is not answered yet, a tick reports \<open>q1\<close> as completed: the
  timer is armed and no table entry has a server id.
\<close>

theorem C4_timer_armed_with_no_server_id:
  "pollInterval waiting = Some guestClosure \<and>
   map clientId (pendingQueueJobs waiting) = [''optimistic-2''] \<and>
   map queueId (pendingQueueJobs waiting) = [None]"
  by (simp add: waiting_def guestClosure_def statusDown_def oneQueued_value handler_defs
        fixture_defs Let_def)

text \<open>
  Claim C6, as amended. When a failing tick brings the failure counter to 5, that tick
  disarms the timer, resets the counter, emits exactly one notification ("Queue updates
  paused") and leaves the table as it is. While the timer is disarmed a tick does
  nothing; the next successful enqueue arms the timer again.
\<close>

theorem C6_ceiling_pauses_polling:
  assumes "pollInterval s = Some pc" "tickFails pc env s"
      and "MAX_QUEUE_POLL_FAILURES \<le> Suc (pollFailureCount s)"
  shows "pollInterval (pollTick env s) = None \<and>
         pollFailureCount (pollTick env s) = 0 \<and>
         pendingQueueJobs (pollTick env s) = pendingQueueJobs s \<and>
         filter isToast (newEffects s (pollTick env s)) =
           [Toast ''Queue updates paused''
              (Some ''Stopped polling after repeated failures.'') Toast_warning] \<and>
         pollTick env' (pollTick env s) = pollTick env s \<and>
         pollInterval (enqueued env'' c chat q (pollTick env s)) =
           Some (pollClosure env'' c chat)"
proof -
  from failing_tick [OF assms(2)] obtain msg where
    tick: "tick_body pc env s =
         tick_catch msg (s\<lparr>effects := effects s @ [PostStatus (statusRequest pc s)]\<rparr>)" ..
  from assms(1) have poll: "pollTick env s = tick_body pc env s"
    by (simp add: pollTick_def)
  have off: "pollInterval (pollTick env s) = None"
    using assms(3) by (simp add: poll tick timer_tick_catch)
  have zero: "pollFailureCount (pollTick env s) = 0"
    using assms(3) by (simp add: poll tick timer_tick_catch)
  have jobs: "pendingQueueJobs (pollTick env s) = pendingQueueJobs s"
    by (simp add: poll tick timer_tick_catch)
  have "effects (pollTick env s) = effects s @
          [PostStatus (statusRequest pc s), ConsoleError ''Failed to poll queue status'' msg,
           Toast ''Queue updates paused''
              (Some ''Stopped polling after repeated failures.'') Toast_warning]"
    using assms(3) by (simp add: poll tick effects_tick_catch)
  then have "newEffects s (pollTick env s) =
          [PostStatus (statusRequest pc s), ConsoleError ''Failed to poll queue status'' msg,
           Toast ''Queue updates paused''
              (Some ''Stopped polling after repeated failures.'') Toast_warning]"
    by (rule newEffects_extend)
  then have once: "filter isToast (newEffects s (pollTick env s)) =
           [Toast ''Queue updates paused''
              (Some ''Stopped polling after repeated failures.'') Toast_warning]"
    by simp
  have still: "pollTick env' (pollTick env s) = pollTick env s"
    using off by (simp add: pollTick_def [of env'])
  have again: "pollInterval (enqueued env'' c chat q (pollTick env s)) =
           Some (pollClosure env'' c chat)"
    using off by (simp add: pollInterval_enqueued)
  from off zero jobs once still again show ?thesis by simp
qed

text \<open>The fifth failed tick in a row.\<close>

theorem C6_fifth_failure:
  "pollFailureCount failedFourTimes = 4 \<and>
   pollInterval failedFourTimes = Some guestClosure \<and>
   pollInterval (pollTick statusDown failedFourTimes) = None \<and>
   pollFailureCount (pollTick statusDown failedFourTimes) = 0 \<and>
   pendingQueueJobs (pollTick statusDown failedFourTimes) = pendingQueueJobs oneQueued \<and>
   filter isToast (newEffects failedFourTimes (pollTick statusDown failedFourTimes)) =
     [Toast ''Queue updates paused''
        (Some ''Stopped polling after repeated failures.'') Toast_warning]"
proof -
  have ko: "tickFails guestClosure statusDown failedFourTimes"
    by (simp add: statusDown_fails failedFourTimes_state oneQueued_state)
  have ceiling: "MAX_QUEUE_POLL_FAILURES \<le> Suc (pollFailureCount failedFourTimes)"
    by (simp add: failedFourTimes_state MAX_QUEUE_POLL_FAILURES_def)
  from C6_ceiling_pauses_polling [OF failedFourTimes_state(1) ko ceiling]
  show ?thesis by (simp add: failedFourTimes_state)
qed

text \<open>
  Against claim C6 as stated. After the fifth failure the timer is disarmed with \<open>q1\<close>
  still in the table; a second prompt is then sent (a request to the enqueue endpoint)
  and accepted as \<open>q2\<close>, which arms the timer again, and the next tick asks the status
  endpoint about \<open>q1\<close> and \<open>q2\<close>.
\<close>

theorem C6_polling_resumes_after_ceiling:
  "pollInterval paused = None \<and>
   map queueId (pendingQueueJobs paused) = [Some ''q1''] \<and>
   filter isNetwork (newEffects paused resumed) =
     [PostEnqueue (enqueueRequest statusDown (hello ''optimistic-2'') ''chat-1'' [])] \<and>
   pollInterval resumed = Some guestClosure \<and>
   filter isNetwork (newEffects resumed (pollTick busy resumed)) =
     [PostStatus \<lparr>st_userId = ''guest-1'', st_isAuthenticated = False,
                  st_queueIds = [''q1'', ''q2'']\<rparr>]"
proof -
  have "filter isNetwork (newEffects resumed (pollTick busy resumed)) =
     [PostStatus \<lparr>st_userId = ''guest-1'', st_isAuthenticated = False,
                  st_queueIds = [''q1'', ''q2'']\<rparr>]"
    by (simp add: resumed_state(1,2) busy_def guestClosure_def pollTick_def tick_body_def tick_settle_def
          reconcile_def statusRequest_def newEffects_def keepJob_def failedJob_def
          fixture_defs Let_def)
  then show ?thesis
    by (simp add: resumed_state paused_state jobs_oneQueued)
qed

subsection \<open>What holds in every session driven by the hook\<close>

text \<open>Each handler keeps \<open>tidy\<close>: \<open>submit\<close> adds a table entry without a server id
  under a fresh client id, and attaches the server id in the block that evicts the
  optimistic message; the tick and the cancellation only take entries out of the
  table.\<close>

lemma tidy_shrink:
  assumes "tidy s"
      and "pendingQueueJobs s' = filter P (pendingQueueJobs s)"
      and "\<forall>job\<in>set (pendingQueueJobs s).
             clientId job \<in> msg_id ` set (messages s') \<longrightarrow>
             clientId job \<in> msg_id ` set (messages s)"
  shows "tidy s'"
  using assms by (auto simp: tidy_def distinct_map_filter)

lemma tidy_same:
  "pendingQueueJobs s' = pendingQueueJobs s \<Longrightarrow> messages s' = messages s \<Longrightarrow> tidy s' = tidy s"
  by (simp add: tidy_def)

lemma tidy_afterRender: "tidy (afterRender prev s) = tidy s"
  by (rule tidy_same) (simp_all add: afterRender_def pendingLengthEffect_def clearPolling_def)

lemma tidy_initial: "tidy (initial chatId initialMessages draftValue)"
  by (simp add: tidy_def initial_def)

lemma tidy_submit_begin:
  assumes "tidy s" "sc_optimisticId c \<notin> clientId ` set (pendingQueueJobs s)"
  shows "tidy (submit_begin env c s)"
proof -
  from assms(2) have fresh: "\<forall>job\<in>set (pendingQueueJobs s). clientId job \<noteq> sc_optimisticId c"
    by (metis image_eqI)
  with assms(1) show ?thesis
    by (auto simp: tidy_def submit_begin_def queueMessage_def optimisticMessage_def Let_def)
qed

lemma tidy_rejectSubmission: "tidy s \<Longrightarrow> tidy (rejectSubmission env c s)"
  by (rule tidy_shrink [where P = "\<lambda>item. clientId item \<noteq> sc_optimisticId c"])
     (auto simp: rejectSubmission_def)

lemma tidy_submitFailed: "tidy s \<Longrightarrow> tidy (submitFailed env c msg s)"
  by (rule tidy_shrink [where P = "\<lambda>item. clientId item \<noteq> sc_optimisticId c"])
     (auto simp: submitFailed_def)

lemma tidy_enqueued:
  assumes "tidy s"
  shows "tidy (enqueued env c chat q s)"
proof -
  let ?g = "\<lambda>item. if clientId item = sc_optimisticId c
                    then item\<lparr>queueId := Some (q_id q),
                              status := (if q_status q = ''processing'' then Processing else Pending)\<rparr>
                    else item"
  have same: "map clientId (map ?g xs) = map clientId xs" for xs
    by (induction xs) auto
  have "distinct (map clientId (map ?g (pendingQueueJobs s)))"
    using assms unfolding same by (simp add: tidy_def)
  moreover have "\<forall>job\<in>set (map ?g (pendingQueueJobs s)).
         queueId job \<noteq> None \<longrightarrow>
         clientId job \<notin> msg_id ` set (filter (\<lambda>m. msg_id m \<noteq> sc_optimisticId c) (messages s))"
    using assms by (auto simp: tidy_def)
  ultimately show ?thesis
    by (simp add: tidy_def jobs_enqueued messages_enqueued)
qed

lemma tidy_effects [simp]: "tidy (s\<lparr>effects := es\<rparr>) = tidy s"
  by (simp add: tidy_def)

lemma tidy_isSubmitting [simp]: "tidy (s\<lparr>isSubmitting := b\<rparr>) = tidy s"
  by (simp add: tidy_def)

lemma tidy_submit_settle:
  assumes "tidy s"
  shows "tidy (submit_settle env c s)"
proof -
  from submit_settle_cases [of env c s] show ?thesis
  proof (elim disjE exE conjE)
    fix ts
    assume "submit_settle env c s =
      (rejectSubmission env c (s\<lparr>effects := effects s @ ts\<rparr>))\<lparr>isSubmitting := False\<rparr>"
    with assms show ?thesis by (simp add: tidy_rejectSubmission)
  next
    fix chat atts
    assume eq: "submit_settle env c s = (enqueue env c chat atts s)\<lparr>isSubmitting := False\<rparr>"
    from enqueue_cases [of env c chat atts s] assms show ?thesis
      by (auto simp: eq tidy_submitFailed tidy_enqueued)
  qed
qed

lemma tidy_tick_catch: "tidy (tick_catch msg s) = tidy s"
  by (rule tidy_same) (simp_all add: tick_catch_def clearPolling_def Let_def)

lemma tidy_reconcile:
  assumes "tidy s" "addsNoMessageUnder env (clientId ` set (pendingQueueJobs s))"
  shows "tidy (reconcile pc env resp s)"
proof (rule tidy_shrink [OF assms(1) jobs_reconcile])
  from assms(2) show "\<forall>job\<in>set (pendingQueueJobs s).
      clientId job \<in> msg_id ` set (messages (reconcile pc env resp s)) \<longrightarrow>
      clientId job \<in> msg_id ` set (messages s)"
    by (simp add: messages_reconcile addsNoMessageUnder_def)
qed

lemma tidy_pollTick:
  assumes "tidy s" "addsNoMessageUnder env (clientId ` set (pendingQueueJobs s))"
  shows "tidy (pollTick env s)"
  using assms
  by (simp add: pollTick_def tick_body_def tick_settle_def Let_def tidy_tick_catch tidy_reconcile
        clearPolling_def tidy_def [of "s\<lparr>pollInterval := None, pollFailureCount := 0\<rparr>"]
        tidy_def [of s]
      split: option.splits sum.splits)

lemma tidy_cancel_begin: "tidy s \<Longrightarrow> tidy (cancel_begin p qid s)"
  by (rule tidy_shrink [where P = "\<lambda>job. queueId job \<noteq> Some qid"])
     (auto simp: cancel_begin_def)

lemma tidy_cancel_settle: "tidy (cancel_settle answer s) = tidy s"
  by (rule tidy_same) (simp_all add: cancel_settle_def split: sum.splits)

lemma tidy_renderChatId: "tidy s \<Longrightarrow> tidy (renderChatId chatId s)"
  by (auto simp: tidy_def renderChatId_def Let_def)

lemma hookDriven_tidy: "hookDriven s \<Longrightarrow> tidy s"
proof (induction rule: hookDriven.induct)
  case (mounted chatId initialMessages draftValue)
  show ?case by (rule tidy_initial)
next
  case (submit_begins s c env)
  then show ?case by (simp add: step_def tidy_afterRender tidy_submit_begin)
next
  case (submit_settles s env c)
  then show ?case by (simp add: step_def tidy_afterRender tidy_submit_settle)
next
  case (ticks s env)
  then show ?case by (simp add: step_def tidy_afterRender tidy_pollTick)
next
  case (cancel_begins s p qid)
  then show ?case by (simp add: step_def tidy_afterRender tidy_cancel_begin)
next
  case (cancel_settles s answer)
  then show ?case by (simp add: step_def tidy_afterRender tidy_cancel_settle)
next
  case (renders s chatId)
  then show ?case by (simp add: step_def tidy_afterRender tidy_renderChatId)
next
  case (conversation_layer s ms)
  then show ?case by (auto simp: tidy_def)
qed


lemma server_addsNoMessageUnder: "addsNoMessageUnder (server enq st) ids"
  by (auto simp: addsNoMessageUnder_def server_def dest: in_set_butlastD)

lemma hookDriven_submit:
  assumes "hookDriven s" "sc_optimisticId c \<notin> clientId ` set (pendingQueueJobs s)"
  shows "hookDriven (run s [Submit_begin env c, Submit_settle env' c'])"
  using assms by (simp add: run_def hookDriven.submit_begins hookDriven.submit_settles)



lemma hookDriven_queuedAfterGreeting: "hookDriven queuedAfterGreeting"
  unfolding queuedAfterGreeting_def
  by (rule hookDriven_submit [OF hookDriven.mounted]) (simp add: initial_def)

lemma queuedAfterGreeting_state:
  "pendingQueueJobs queuedAfterGreeting = [job1]"
  "pollInterval queuedAfterGreeting = Some guestClosure"
  "messages queuedAfterGreeting = [greeting]"
  by (simp_all add: queuedAfterGreeting_def greeting_def job1_def guestClosure_def handler_defs
        fixture_defs Let_def)

lemma hookDriven_evicted:
  assumes "hookDriven s" "job \<in> set (pendingQueueJobs s)" "queueId job = Some q"
  shows "distinct (map clientId (pendingQueueJobs s))"
    and "clientId job \<notin> msg_id ` set (messages s)"
  using hookDriven_tidy [OF assms(1)] assms(2,3) by (auto simp: tidy_def)

subsection \<open>Terminal classification\<close>

text \<open>
  Claim C1, as amended. In a session driven by the hook, when a poll tick's status
  answer classifies the server id of a job as completed, failed or cancelled, then after
  that tick both the table entry and the transcript message keyed by that job's client
  id are absent. The transcript message is absent already before the tick: it is
  evicted by the submission itself, in the block that runs once the enqueue has
  succeeded and that attaches the server id to the table entry, not by the tick.
\<close>

theorem C1_terminal_jobs_absent_after_tick:
  assumes "hookDriven s"
      and "addsNoMessageUnder env (clientId ` set (pendingQueueJobs s))"
      and "pollInterval s = Some pc"
      and "postJson (fetchStatus env (statusRequest pc s)) = Inr resp" "qs_success resp"
      and "job \<in> set (pendingQueueJobs s)" "queueId job = Some q" "q \<noteq> []"
      and "e \<in> set (qs_queue resp)" "qe_id e = q"
      and "qe_status e = Q_completed \<or> qe_status e = Q_failed \<or> qe_status e = Q_cancelled"
  shows "clientId job \<notin> clientId ` set (pendingQueueJobs (pollTick env s)) \<and>
         clientId job \<notin> msg_id ` set (messages (pollTick env s)) \<and>
         clientId job \<notin> msg_id ` set (messages s) \<and>
         sc_optimisticId c \<notin> msg_id ` set (messages (enqueued env' c chat qr s')) \<and>
         (\<forall>item \<in> set (pendingQueueJobs (enqueued env' c chat qr s')).
            clientId item = sc_optimisticId c \<longrightarrow> queueId item = Some (q_id qr))"
proof -
  from assms(1,6,7) have keys: "distinct (map clientId (pendingQueueJobs s))"
    and before: "clientId job \<notin> msg_id ` set (messages s)"
    by (rule hookDriven_evicted)+
  from assms(6,7,8) have ids: "queueIdsOf (pendingQueueJobs s) \<noteq> []"
    by (rule queueIdsOf_nonempty)
  have tick: "pollTick env s =
      reconcile pc env resp (s\<lparr>effects := effects s @ [PostStatus (statusRequest pc s)]\<rparr>)"
    using assms(3,4,5) ids by (rule jobs_answered_tick)
  have gone: "\<not> keepJob
          (map qe_id (filter (\<lambda>job. qe_status job = Q_failed \<or> qe_status job = Q_cancelled)
                        (qs_queue resp)))
          (map qe_id (filter (\<lambda>job. qe_status job = Q_completed) (qs_queue resp))) job"
    using assms(7,8,9,10,11) by (rule terminal_not_kept)
  have "clientId job \<notin> clientId ` set (filter
          (keepJob
             (map qe_id (filter (\<lambda>job. qe_status job = Q_failed \<or> qe_status job = Q_cancelled)
                           (qs_queue resp)))
             (map qe_id (filter (\<lambda>job. qe_status job = Q_completed) (qs_queue resp))))
          (pendingQueueJobs s))"
    using keys assms(6) gone by (rule filter_removes_key)
  then have table: "clientId job \<notin> clientId ` set (pendingQueueJobs (pollTick env s))"
    by (simp add: tick jobs_reconcile)
  from assms(2,6) before
  have "clientId job \<notin> msg_id ` set (regenerate env (regenerateBody pc) (messages s))"
    by (auto simp: addsNoMessageUnder_def)
  with before have after: "clientId job \<notin> msg_id ` set (messages (pollTick env s))"
    by (simp add: tick messages_reconcile)
  have "sc_optimisticId c \<notin> msg_id ` set (messages (enqueued env' c chat qr s'))"
    by (auto simp: messages_enqueued)
  moreover have "\<forall>item \<in> set (pendingQueueJobs (enqueued env' c chat qr s')).
            clientId item = sc_optimisticId c \<longrightarrow> queueId item = Some (q_id qr)"
    by (auto simp: jobs_enqueued)
  ultimately show ?thesis using table after before by simp
qed

text \<open>The hypotheses hold in the chat that holds a greeting and one queued prompt, when
  the status answer reports \<open>q1\<close> as completed: after the tick the table is empty and
  the transcript, rewritten by \<open>regenerate\<close>, holds no message under the client id. The
  block after the successful enqueue of the prompt attaches \<open>q1\<close> and evicts the
  optimistic message.\<close>

theorem C1_completed_job_absent_after_tick:
  "pendingQueueJobs queuedAfterGreeting = [job1] \<and>
   messages queuedAfterGreeting = [greeting] \<and>
   ''optimistic-1'' \<notin> clientId ` set (pendingQueueJobs
      (pollTick (server (accepted ''q2'') (reports [(''q1'', Q_completed)])) queuedAfterGreeting)) \<and>
   ''optimistic-1'' \<notin> msg_id ` set (messages
      (pollTick (server (accepted ''q2'') (reports [(''q1'', Q_completed)])) queuedAfterGreeting)) \<and>
   ''optimistic-1'' \<notin> msg_id ` set (messages queuedAfterGreeting) \<and>
   map msg_id (messages helloSent) = [''optimistic-1''] \<and>
   ''optimistic-1'' \<notin> msg_id ` set (messages
      (enqueued (server (accepted ''q1'') (reports [])) (hello ''optimistic-1'') ''chat-1''
         \<lparr>q_id = ''q1'', q_status = ''pending''\<rparr> helloSent)) \<and>
   job1 \<in> set (pendingQueueJobs
      (enqueued (server (accepted ''q1'') (reports [])) (hello ''optimistic-1'') ''chat-1''
         \<lparr>q_id = ''q1'', q_status = ''pending''\<rparr> helloSent)) \<and>
   queueId job1 = Some ''q1''"
proof -
  let ?env = "server (accepted ''q2'') (reports [(''q1'', Q_completed)])"
  let ?srv = "server (accepted ''q1'') (reports [])"
  let ?ref = "\<lparr>q_id = ''q1'', q_status = ''pending''\<rparr>"
  let ?e = "\<lparr>qe_id = ''q1'', qe_status = Q_completed\<rparr>"
  let ?resp = "\<lparr>qs_success = True, qs_queue = [?e], qs_error = None\<rparr>"
  have spared: "addsNoMessageUnder ?env (clientId ` set (pendingQueueJobs queuedAfterGreeting))"
    by (rule server_addsNoMessageUnder)
  have armed: "pollInterval queuedAfterGreeting = Some guestClosure"
    by (rule queuedAfterGreeting_state)
  have answer: "postJson (fetchStatus ?env (statusRequest guestClosure queuedAfterGreeting)) =
                  Inr ?resp"
    by (simp add: fixture_defs)
  have ok: "qs_success ?resp" by simp
  have job: "job1 \<in> set (pendingQueueJobs queuedAfterGreeting)"
    by (simp add: queuedAfterGreeting_state)
  have q: "queueId job1 = Some ''q1''" "''q1'' \<noteq> []" by (simp_all add: job1_def)
  have e: "?e \<in> set (qs_queue ?resp)" "qe_id ?e = ''q1''"
    "qe_status ?e = Q_completed \<or> qe_status ?e = Q_failed \<or> qe_status ?e = Q_cancelled"
    by simp_all
  have attached: "job1 \<in> set (pendingQueueJobs
      (enqueued ?srv (hello ''optimistic-1'') ''chat-1'' ?ref helloSent))"
    by (simp add: jobs_enqueued job1_def helloSent_def refusing_def handler_defs fixture_defs
          Let_def)
  have key: "clientId job1 = sc_optimisticId (hello ''optimistic-1'')"
    by (simp add: job1_def hello_def)
  from C1_terminal_jobs_absent_after_tick
         [OF hookDriven_queuedAfterGreeting spared armed answer ok job q e,
          of "hello ''optimistic-1''" ?srv "''chat-1''" ?ref helloSent]
       attached key
  have "clientId job1 \<notin> clientId ` set (pendingQueueJobs (pollTick ?env queuedAfterGreeting))"
    and "clientId job1 \<notin> msg_id ` set (messages (pollTick ?env queuedAfterGreeting))"
    and "clientId job1 \<notin> msg_id ` set (messages queuedAfterGreeting)"
    and "sc_optimisticId (hello ''optimistic-1'') \<notin> msg_id ` set (messages
           (enqueued ?srv (hello ''optimistic-1'') ''chat-1'' ?ref helloSent))"
    and "queueId job1 = Some (q_id ?ref)"
    by blast+
  then show ?thesis
    using attached by (simp add: job1_def hello_def queuedAfterGreeting_state helloSent_state)
qed

text \<open>
  Against claim C1 as stated. A prompt is sent in the chat that holds a greeting, and
  the queue accepts it as \<open>q1\<close>. The optimistic message is in the transcript while the
  enqueue is awaited and is gone once the submission has settled, before any tick has
  run and while the table entry is still there. The tick that then classifies \<open>q1\<close>
  as failed removes the table entry and finds no message to evict.
\<close>

theorem C1_message_evicted_before_the_tick:
  "map msg_id (messages
      (step (initial (Some ''chat-1'') [greeting] ''Hello'')
         (Submit_begin (server (accepted ''q1'') (reports []))
            ((hello ''optimistic-1'')\<lparr>sc_messages := [greeting]\<rparr>)))) =
     [''m0'', ''optimistic-1''] \<and>
   queuedAfterGreeting =
     step (step (initial (Some ''chat-1'') [greeting] ''Hello'')
             (Submit_begin (server (accepted ''q1'') (reports []))
                ((hello ''optimistic-1'')\<lparr>sc_messages := [greeting]\<rparr>)))
       (Submit_settle (server (accepted ''q1'') (reports []))
          ((hello ''optimistic-1'')\<lparr>sc_messages := [greeting]\<rparr>)) \<and>
   map msg_id (messages queuedAfterGreeting) = [''m0''] \<and>
   map clientId (pendingQueueJobs queuedAfterGreeting) = [''optimistic-1''] \<and>
   map queueId (pendingQueueJobs queuedAfterGreeting) = [Some ''q1''] \<and>
   pendingQueueJobs
     (pollTick (server (accepted ''q2'') (reports [(''q1'', Q_failed)])) queuedAfterGreeting) = [] \<and>
   map msg_id (messages
     (pollTick (server (accepted ''q2'') (reports [(''q1'', Q_failed)])) queuedAfterGreeting)) =
     [''m0'']"
proof -
  have shown: "map msg_id (messages
      (step (initial (Some ''chat-1'') [greeting] ''Hello'')
         (Submit_begin (server (accepted ''q1'') (reports []))
            ((hello ''optimistic-1'')\<lparr>sc_messages := [greeting]\<rparr>)))) =
     [''m0'', ''optimistic-1'']"
    by (simp add: greeting_def handler_defs fixture_defs Let_def)
  have chain: "queuedAfterGreeting =
     step (step (initial (Some ''chat-1'') [greeting] ''Hello'')
             (Submit_begin (server (accepted ''q1'') (reports []))
                ((hello ''optimistic-1'')\<lparr>sc_messages := [greeting]\<rparr>)))
       (Submit_settle (server (accepted ''q1'') (reports []))
          ((hello ''optimistic-1'')\<lparr>sc_messages := [greeting]\<rparr>))"
    by (simp add: queuedAfterGreeting_def run_def)
  have tick: "pendingQueueJobs
     (pollTick (server (accepted ''q2'') (reports [(''q1'', Q_failed)])) queuedAfterGreeting) = []"
    "map msg_id (messages
     (pollTick (server (accepted ''q2'') (reports [(''q1'', Q_failed)])) queuedAfterGreeting)) =
     [''m0'']"
    by (simp_all add: queuedAfterGreeting_def greeting_def handler_defs fixture_defs Let_def)
  from shown chain tick show ?thesis
    by (simp add: queuedAfterGreeting_state job1_def greeting_def)
qed

subsection \<open>Cancellation\<close>



end
